theory Spec2Isabelle
  imports Main "HOL-Library.AList" "HOL-Library.Word"
begin

section \<open>Values of the program\<close>

text \<open>
  The monitor keeps its configuration as the object that \<^verbatim>\<open>json.load\<close> returned, so
  a configuration value is any JSON value. JSON numbers are modelled as integers (the
  defaults and every value the monitor writes are integers); Python's \<^verbatim>\<open>None\<close> is
  \<open>JNull\<close>. A dictionary is an association list in insertion order, as Python keeps it.
\<close>

datatype json =
    JNull
  | JBool bool
  | JInt int
  | JStr string
  | JList "json list"
  | JDict "(string \<times> json) list"

text \<open>The exceptions that the modelled statements can raise.\<close>

datatype error = KeyError | TypeError | IndexError | AttributeError | IOError

type_synonym byte = "8 word"

subsection \<open>Python operations on these values\<close>

text \<open>Truth value of an object, as \<^verbatim>\<open>if x and y\<close> tests it.\<close>

fun truthy :: "json \<Rightarrow> bool" where
  "truthy JNull = False"
| "truthy (JBool b) = b"
| "truthy (JInt n) = (n \<noteq> 0)"
| "truthy (JStr s) = (s \<noteq> [])"
| "truthy (JList xs) = (xs \<noteq> [])"
| "truthy (JDict kvs) = (kvs \<noteq> [])"

text \<open>The integer a value counts as in a comparison or as an index: \<^verbatim>\<open>bool\<close> is a
  subclass of \<^verbatim>\<open>int\<close>; every other value is no number.\<close>

fun as_int :: "json \<Rightarrow> int option" where
  "as_int (JInt n) = Some n"
| "as_int (JBool b) = Some (if b then 1 else 0)"
| "as_int v = None"

text \<open>\<^verbatim>\<open>v == n\<close> and \<^verbatim>\<open>v != n\<close> for an integer \<open>n\<close>: never raise.\<close>

definition py_eq_int :: "json \<Rightarrow> int \<Rightarrow> bool" where
  "py_eq_int v n = (as_int v = Some n)"

text \<open>\<^verbatim>\<open>v < n\<close> and \<^verbatim>\<open>n <= v\<close> for an integer \<open>n\<close>: \<^verbatim>\<open>TypeError\<close> when \<open>v\<close> is no
  number.\<close>

definition py_lt_int :: "json \<Rightarrow> int \<Rightarrow> error + bool" where
  "py_lt_int v n = (case as_int v of None \<Rightarrow> Inl TypeError | Some m \<Rightarrow> Inr (m < n))"

definition py_int_le :: "int \<Rightarrow> json \<Rightarrow> error + bool" where
  "py_int_le n v = (case as_int v of None \<Rightarrow> Inl TypeError | Some m \<Rightarrow> Inr (n \<le> m))"

text \<open>\<^verbatim>\<open>xs[i]\<close> on a list: a negative index counts from the end, an index out of
  range raises \<^verbatim>\<open>IndexError\<close>.\<close>

definition py_index :: "'a list \<Rightarrow> int \<Rightarrow> error + 'a" where
  "py_index xs i =
     (if 0 \<le> i \<and> i < int (length xs) then Inr (xs ! nat i)
      else if i < 0 \<and> - int (length xs) \<le> i then Inr (xs ! nat (int (length xs) + i))
      else Inl IndexError)"

text \<open>Strings are ASCII: \<^verbatim>\<open>s.lower()\<close> maps \<open>A..Z\<close> to \<open>a..z\<close>, and
  \<^verbatim>\<open>sub in s\<close> is the substring test.\<close>

definition lower_char :: "char \<Rightarrow> char" where
  "lower_char c =
     (case map_of (zip ''ABCDEFGHIJKLMNOPQRSTUVWXYZ'' ''abcdefghijklmnopqrstuvwxyz'') c of
        None \<Rightarrow> c
      | Some d \<Rightarrow> d)"

definition lower :: "string \<Rightarrow> string" where
  "lower s = map lower_char s"

fun startswith :: "string \<Rightarrow> string \<Rightarrow> bool" where
  "startswith s [] = True"
| "startswith [] (p # ps) = False"
| "startswith (c # cs) (p # ps) = (c = p \<and> startswith cs ps)"

fun str_contains :: "string \<Rightarrow> string \<Rightarrow> bool" where
  "str_contains sub [] = (sub = [])"
| "str_contains sub (c # cs) = (startswith (c # cs) sub \<or> str_contains sub cs)"

text \<open>\<^verbatim>\<open>str(n)\<close> of a natural number, in decimal.\<close>

fun str_of_nat :: "nat \<Rightarrow> string" where
  "str_of_nat n =
     (if n < 10 then [''0123456789'' ! n]
      else str_of_nat (n div 10) @ [''0123456789'' ! (n mod 10)])"

declare str_of_nat.simps [simp del]

text \<open>\<^verbatim>\<open>key in obj\<close>: a key of a dictionary, an element of a list, a substring of a
  string; any other object is not iterable.\<close>

fun py_in :: "string \<Rightarrow> json \<Rightarrow> error + bool" where
  "py_in k (JDict kvs) = Inr (k \<in> set (map fst kvs))"
| "py_in k (JList xs) = Inr (JStr k \<in> set xs)"
| "py_in k (JStr s) = Inr (str_contains k s)"
| "py_in k v = Inl TypeError"

text \<open>\<^verbatim>\<open>obj[key]\<close> for a string key: \<^verbatim>\<open>KeyError\<close> on a dictionary without the key,
  \<^verbatim>\<open>TypeError\<close> on anything that is no dictionary.\<close>

fun subscript :: "json \<Rightarrow> string \<Rightarrow> error + json" where
  "subscript (JDict kvs) k = (case map_of kvs k of None \<Rightarrow> Inl KeyError | Some v \<Rightarrow> Inr v)"
| "subscript v k = Inl TypeError"

text \<open>\<^verbatim>\<open>obj[key] = value\<close> for a string key: updates the entry in place or appends it.\<close>

fun setitem :: "json \<Rightarrow> string \<Rightarrow> json \<Rightarrow> error + json" where
  "setitem (JDict kvs) k v = Inr (JDict (AList.update k v kvs))"
| "setitem c k v = Inl TypeError"

text \<open>\<^verbatim>\<open>obj.get(key)\<close>: \<^verbatim>\<open>None\<close> for a missing key; only a dictionary has the method.\<close>

fun dict_get :: "json \<Rightarrow> string \<Rightarrow> error + json" where
  "dict_get (JDict kvs) k = (case map_of kvs k of None \<Rightarrow> Inr JNull | Some v \<Rightarrow> Inr v)"
| "dict_get v k = Inl AttributeError"

section \<open>Configuration\<close>

definition DEFAULT_CONFIG :: "(string \<times> json) list" where
  "DEFAULT_CONFIG =
     [(''update_interval'', JInt 300),
      (''low_battery_threshold'', JInt 20),
      (''critical_battery_threshold'', JInt 10),
      (''vendor_id'', JNull),
      (''product_id'', JNull),
      (''device_name'', JNull),
      (''report_id'', JNull),
      (''left_battery_index'', JNull),
      (''right_battery_index'', JNull)]"

text \<open>
  The configuration file: missing, present but not readable as JSON (\<^verbatim>\<open>open\<close> or
  \<^verbatim>\<open>json.load\<close> raises), or holding a JSON value. \<^verbatim>\<open>json.dump\<close> followed by
  \<^verbatim>\<open>json.load\<close> is taken to give the value back.
\<close>

datatype file_state = Missing | Unreadable | Parsed json

text \<open>The loop of \<^verbatim>\<open>load_config\<close> over \<^verbatim>\<open>DEFAULT_CONFIG.items()\<close>.\<close>

fun merge_defaults :: "json \<Rightarrow> (string \<times> json) list \<Rightarrow> error + json" where
  "merge_defaults cfg [] = Inr cfg"
| "merge_defaults cfg ((key, val) # rest) =
     (case py_in key cfg of
        Inl e \<Rightarrow> Inl e
      | Inr True \<Rightarrow> merge_defaults cfg rest
      | Inr False \<Rightarrow>
          (case setitem cfg key val of
             Inl e \<Rightarrow> Inl e
           | Inr cfg' \<Rightarrow> merge_defaults cfg' rest))"

fun load_config :: "file_state \<Rightarrow> json" where
  "load_config Missing = JDict DEFAULT_CONFIG"
| "load_config Unreadable = JDict DEFAULT_CONFIG"
| "load_config (Parsed v) =
     (case merge_defaults v DEFAULT_CONFIG of
        Inl e \<Rightarrow> JDict DEFAULT_CONFIG
      | Inr cfg \<Rightarrow> cfg)"

section \<open>The HID layer and the monitor\<close>

text \<open>One entry of \<^verbatim>\<open>hid.enumerate()\<close>, with the fields the monitor reads. The path is
  carried as text (its decoding is taken to succeed).\<close>

record hid_info =
  vendor_id :: int
  product_id :: int
  path :: string
  manufacturer_string :: string
  product_string :: string

text \<open>
  What the world answers during one monitoring cycle: the enumeration (\<open>None\<close> when
  \<^verbatim>\<open>hid.enumerate\<close> raises), whether \<^verbatim>\<open>device.open\<close> succeeds, the answer to the
  \<open>k\<close>-th feature report request of the cycle for a report ID (\<open>None\<close> when the request
  raises), the clock, and how the writes to the two files end. A write of the
  configuration file can succeed, be refused by \<^verbatim>\<open>open\<close> (the file stays as it was), or
  fail after \<^verbatim>\<open>open(CONFIG_FILE, 'w')\<close> has truncated the file (what is left is no
  JSON). A failed write of the CSV file is taken to leave it as it was.
\<close>

datatype write_outcome = Written | Refused | Truncated

record env =
  hid_enumerate :: "hid_info list option"
  open_ok :: bool
  get_feature_report :: "nat \<Rightarrow> int \<Rightarrow> byte list option"
  now :: string
  config_write :: write_outcome
  log_write_ok :: bool

record reading =
  left :: "nat option"
  right :: "nat option"
  timestamp :: "string option"

datatype color = Gray | Red | Orange | Green

text \<open>The calls the monitor makes on the tray and notification interfaces.\<close>

datatype ui_event =
    UpdateIcon color color
  | UpdateTitle string
  | ShowNotification string string bool

text \<open>
  The \<^verbatim>\<open>BatteryMonitor\<close> object together with what it writes outside itself: the
  configuration file, the CSV log, the calls on the user interface and the feature
  report requests sent to the device.
\<close>

record monitor =
  config :: json
  battery_levels :: reading
  icon :: bool
  gui_available :: bool
  config_file :: file_state
  log_file :: "string option"
  ui_events :: "ui_event list"
  hid_requests :: "int list"

text \<open>\<^verbatim>\<open>save_config\<close> catches its own exceptions.\<close>

definition save_config :: "env \<Rightarrow> monitor \<Rightarrow> monitor" where
  "save_config e m =
     (case config_write e of
        Written \<Rightarrow> m\<lparr>config_file := Parsed (config m)\<rparr>
      | Refused \<Rightarrow> m
      | Truncated \<Rightarrow> m\<lparr>config_file := Unreadable\<rparr>)"

subsection \<open>\<^verbatim>\<open>find_keyboard\<close>\<close>

text \<open>The test \<^verbatim>\<open>self.config["vendor_id"] and self.config["product_id"]\<close>: the second
  operand is evaluated only when the first is true.\<close>

definition configured_ids :: "json \<Rightarrow> error + (json \<times> json) option" where
  "configured_ids cfg =
     (case subscript cfg ''vendor_id'' of
        Inl err \<Rightarrow> Inl err
      | Inr vid \<Rightarrow>
          if truthy vid then
            (case subscript cfg ''product_id'' of
               Inl err \<Rightarrow> Inl err
             | Inr pid \<Rightarrow> Inr (if truthy pid then Some (vid, pid) else None))
          else Inr None)"

definition is_configured_device :: "json \<Rightarrow> json \<Rightarrow> hid_info \<Rightarrow> bool" where
  "is_configured_device vid pid device =
     (py_eq_int vid (vendor_id device) \<and> py_eq_int pid (product_id device))"

text \<open>The filter for potential ZMK devices.\<close>

definition is_zmk_candidate :: "hid_info \<Rightarrow> bool" where
  "is_zmk_candidate device =
     (str_contains ''keyboard'' (lower (product_string device)) \<or>
      str_contains ''zmk'' (lower (product_string device)) \<or>
      str_contains ''zmk'' (lower (manufacturer_string device)))"

definition device_name_of :: "hid_info \<Rightarrow> string" where
  "device_name_of device = manufacturer_string device @ '' '' @ product_string device"

text \<open>The three assignments into the configuration and the save that follow the choice
  of the first candidate. An assignment that raises leaves the earlier ones done.\<close>

definition select_device :: "env \<Rightarrow> hid_info \<Rightarrow> monitor \<Rightarrow> (error + bool) \<times> monitor" where
  "select_device e device m =
     (case setitem (config m) ''vendor_id'' (JInt (vendor_id device)) of
        Inl err \<Rightarrow> (Inl err, m)
      | Inr c1 \<Rightarrow>
          (case setitem c1 ''product_id'' (JInt (product_id device)) of
             Inl err \<Rightarrow> (Inl err, m\<lparr>config := c1\<rparr>)
           | Inr c2 \<Rightarrow>
               (case setitem c2 ''device_name'' (JStr (device_name_of device)) of
                  Inl err \<Rightarrow> (Inl err, m\<lparr>config := c2\<rparr>)
                | Inr c3 \<Rightarrow> (Inr True, save_config e (m\<lparr>config := c3\<rparr>)))))"

definition find_keyboard :: "env \<Rightarrow> monitor \<Rightarrow> (error + bool) \<times> monitor" where
  "find_keyboard e m =
     (case hid_enumerate e of
        None \<Rightarrow> (Inl IOError, m)
      | Some devices \<Rightarrow>
          (case configured_ids (config m) of
             Inl err \<Rightarrow> (Inl err, m)
           | Inr ids \<Rightarrow>
               if (case ids of
                     None \<Rightarrow> False
                   | Some (vid, pid) \<Rightarrow> list_ex (is_configured_device vid pid) devices)
               then
                 (case subscript (config m) ''device_name'' of
                    Inl err \<Rightarrow> (Inl err, m)
                  | Inr name \<Rightarrow> (Inr True, m))
               else
                 (case filter is_zmk_candidate devices of
                    [] \<Rightarrow> (Inr False, m)
                  | device # others \<Rightarrow> select_device e device m)))"

subsection \<open>\<^verbatim>\<open>log_battery_levels\<close>\<close>

definition newline :: string where
  "newline = [CHR 0x0A]"

definition csv_header :: string where
  "csv_header = ''timestamp,left_battery,right_battery'' @ newline"

definition csv_field :: "nat option \<Rightarrow> string" where
  "csv_field level = (case level of None \<Rightarrow> [] | Some n \<Rightarrow> str_of_nat n)"

definition csv_row :: "reading \<Rightarrow> string" where
  "csv_row b =
     (case timestamp b of None \<Rightarrow> ''None'' | Some t \<Rightarrow> t) @ '','' @
     csv_field (left b) @ '','' @ csv_field (right b) @ newline"

definition log_battery_levels :: "env \<Rightarrow> monitor \<Rightarrow> error option \<times> monitor" where
  "log_battery_levels e m =
     (if \<not> log_write_ok e then (Some IOError, m)
      else
        (let existing = (case log_file m of None \<Rightarrow> csv_header | Some content \<Rightarrow> content)
         in (None, m\<lparr>log_file := Some (existing @ csv_row (battery_levels m))\<rparr>)))"

subsection \<open>\<^verbatim>\<open>read_battery_levels\<close>\<close>

definition report_ids :: "int list" where
  "report_ids = [1, 2, 3, 4, 5, 6, 7, 8]"

text \<open>The first loop: request every report ID and keep the answers longer than two
  bytes, in probe order. \<open>k\<close> counts the requests made so far.\<close>

fun collect_reports ::
  "(nat \<Rightarrow> int \<Rightarrow> byte list option) \<Rightarrow> nat \<Rightarrow> int list \<Rightarrow> (int \<times> byte list) list" where
  "collect_reports dev k [] = []"
| "collect_reports dev k (report_id # rest) =
     (case dev k report_id of
        None \<Rightarrow> collect_reports dev (Suc k) rest
      | Some report \<Rightarrow>
          if length report > 2 then (report_id, report) # collect_reports dev (Suc k) rest
          else collect_reports dev (Suc k) rest)"

definition potential_battery_values :: "byte list \<Rightarrow> (nat \<times> nat) list" where
  "potential_battery_values report =
     [(i, unat (report ! i)). i \<leftarrow> [1..<min 5 (length report)],
        0 \<le> unat (report ! i) \<and> unat (report ! i) \<le> 100]"

text \<open>
  Storing the successful report ID, guarded by
  \<^verbatim>\<open>self.config.get("report_id") != report_id\<close>. The result is the monitor as the block
  leaves it, normally or by an exception: the enclosing handler only logs, and with a
  battery value found nothing that is skipped changes the monitor.
\<close>

definition store_report_id :: "env \<Rightarrow> int \<Rightarrow> json \<Rightarrow> json \<Rightarrow> monitor \<Rightarrow> monitor" where
  "store_report_id e report_id left_idx right_idx m =
     (case dict_get (config m) ''report_id'' of
        Inl err \<Rightarrow> m
      | Inr cached \<Rightarrow>
          if \<not> py_eq_int cached report_id then
            (case setitem (config m) ''report_id'' (JInt report_id) of
               Inl err \<Rightarrow> m
             | Inr c1 \<Rightarrow>
                 (case setitem c1 ''left_battery_index'' left_idx of
                    Inl err \<Rightarrow> m\<lparr>config := c1\<rparr>
                  | Inr c2 \<Rightarrow>
                      (case setitem c2 ''right_battery_index'' right_idx of
                         Inl err \<Rightarrow> m\<lparr>config := c2\<rparr>
                       | Inr c3 \<Rightarrow> save_config e (m\<lparr>config := c3\<rparr>))))
          else m)"

text \<open>The second loop, over the kept reports: the first report with a potential battery
  value decides and ends the loop.\<close>

fun scan_reports ::
  "env \<Rightarrow> monitor \<Rightarrow> (int \<times> byte list) list \<Rightarrow> monitor \<times> nat option \<times> nat option" where
  "scan_reports e m [] = (m, None, None)"
| "scan_reports e m ((report_id, report) # rest) =
     (case potential_battery_values report of
        [] \<Rightarrow> scan_reports e m rest
      | [(idx, val)] \<Rightarrow>
          (store_report_id e report_id (JInt (int idx)) JNull m, Some val, None)
      | (left_idx, left_battery) # (right_idx, right_battery) # further \<Rightarrow>
          (store_report_id e report_id (JInt (int left_idx)) (JInt (int right_idx)) m,
           Some left_battery, Some right_battery))"

text \<open>One stored index applied to the stored report: \<open>Inr None\<close> when the index is
  \<^verbatim>\<open>None\<close>, not below the length, or the byte is out of range.\<close>

definition stored_value :: "json \<Rightarrow> string \<Rightarrow> byte list \<Rightarrow> error + nat option" where
  "stored_value cfg key report =
     (case subscript cfg key of
        Inl err \<Rightarrow> Inl err
      | Inr idx \<Rightarrow>
          if idx = JNull then Inr None
          else
            (case py_lt_int idx (int (length report)) of
               Inl err \<Rightarrow> Inl err
             | Inr False \<Rightarrow> Inr None
             | Inr True \<Rightarrow>
                 (case as_int idx of
                    None \<Rightarrow> Inl TypeError
                  | Some i \<Rightarrow>
                      (case py_index report i of
                         Inl err \<Rightarrow> Inl err
                       | Inr b \<Rightarrow>
                           Inr (if 0 \<le> unat b \<and> unat b \<le> 100 then Some (unat b) else None)))))"

text \<open>The fallback on the stored configuration, with its own handler: a value assigned
  before an exception stays assigned. The request is the ninth of the cycle.\<close>

definition read_stored :: "env \<Rightarrow> monitor \<Rightarrow> monitor \<times> nat option \<times> nat option" where
  "read_stored e m =
     (case subscript (config m) ''report_id'' of
        Inl err \<Rightarrow> (m, None, None)
      | Inr rid \<Rightarrow>
          (case as_int rid of
             None \<Rightarrow> (m, None, None)
           | Some report_id \<Rightarrow>
               (let m' = m\<lparr>hid_requests := hid_requests m @ [report_id]\<rparr> in
                case get_feature_report e 8 report_id of
                  None \<Rightarrow> (m', None, None)
                | Some report \<Rightarrow>
                    (case stored_value (config m) ''left_battery_index'' report of
                       Inl err \<Rightarrow> (m', None, None)
                     | Inr left_battery \<Rightarrow>
                         (case stored_value (config m) ''right_battery_index'' report of
                            Inl err \<Rightarrow> (m', left_battery, None)
                          | Inr right_battery \<Rightarrow> (m', left_battery, right_battery))))))"

text \<open>The body of the outer \<^verbatim>\<open>try\<close>: the monitor and the two local variables as the
  block leaves them, normally or by an exception (the handler only logs). Opening
  needs integer IDs.\<close>

definition read_device :: "env \<Rightarrow> monitor \<Rightarrow> monitor \<times> nat option \<times> nat option" where
  "read_device e m =
     (case subscript (config m) ''vendor_id'' of
        Inl err \<Rightarrow> (m, None, None)
      | Inr vid \<Rightarrow>
          (case subscript (config m) ''product_id'' of
             Inl err \<Rightarrow> (m, None, None)
           | Inr pid \<Rightarrow>
               if as_int vid = None \<or> as_int pid = None \<or> \<not> open_ok e then (m, None, None)
               else
                 (let m1 = m\<lparr>hid_requests := hid_requests m @ report_ids\<rparr>;
                      valid_reports = collect_reports (get_feature_report e) 0 report_ids
                  in case scan_reports e m1 valid_reports of
                       (m2, left_battery, right_battery) \<Rightarrow>
                         if left_battery = None \<and> right_battery = None then
                           (case py_in ''report_id'' (config m2) of
                              Inl err \<Rightarrow> (m2, None, None)
                            | Inr False \<Rightarrow> (m2, None, None)
                            | Inr True \<Rightarrow> read_stored e m2)
                         else (m2, left_battery, right_battery))))"

definition read_battery_levels :: "env \<Rightarrow> monitor \<Rightarrow> (error + reading) \<times> monitor" where
  "read_battery_levels e m =
     (case read_device e m of
        (m1, left_battery, right_battery) \<Rightarrow>
          (let m2 = m1\<lparr>battery_levels :=
                      \<lparr>left = left_battery, right = right_battery, timestamp = Some (now e)\<rparr>\<rparr>
           in case log_battery_levels e m2 of
                (Some err, m3) \<Rightarrow> (Inl err, m3)
              | (None, m3) \<Rightarrow> (Inr (battery_levels m3), m3)))"

subsection \<open>\<^verbatim>\<open>update_tray\<close>\<close>

definition get_color :: "json \<Rightarrow> nat option \<Rightarrow> error + color" where
  "get_color cfg level =
     (case level of
        None \<Rightarrow> Inr Gray
      | Some n \<Rightarrow>
          (case subscript cfg ''critical_battery_threshold'' of
             Inl err \<Rightarrow> Inl err
           | Inr critical \<Rightarrow>
               (case py_int_le (int n) critical of
                  Inl err \<Rightarrow> Inl err
                | Inr True \<Rightarrow> Inr Red
                | Inr False \<Rightarrow>
                    (case subscript cfg ''low_battery_threshold'' of
                       Inl err \<Rightarrow> Inl err
                     | Inr low \<Rightarrow>
                         (case py_int_le (int n) low of
                            Inl err \<Rightarrow> Inl err
                          | Inr True \<Rightarrow> Inr Orange
                          | Inr False \<Rightarrow> Inr Green)))))"

text \<open>The icon is represented by the two colours it is drawn with.\<close>

definition generate_tray_icon :: "monitor \<Rightarrow> error + (color \<times> color) option" where
  "generate_tray_icon m =
     (if \<not> gui_available m then Inr None
      else
        (case get_color (config m) (left (battery_levels m)) of
           Inl err \<Rightarrow> Inl err
         | Inr left_color \<Rightarrow>
             (case get_color (config m) (right (battery_levels m)) of
                Inl err \<Rightarrow> Inl err
              | Inr right_color \<Rightarrow> Inr (Some (left_color, right_color)))))"

definition level_str :: "nat option \<Rightarrow> string" where
  "level_str level = (case level of None \<Rightarrow> ''Unknown'' | Some n \<Rightarrow> str_of_nat n @ ''%'')"

text \<open>The test \<^verbatim>\<open>level is not None and level <= self.config["critical_battery_threshold"]\<close>.\<close>

definition is_critical :: "json \<Rightarrow> nat option \<Rightarrow> error + bool" where
  "is_critical cfg level =
     (case level of
        None \<Rightarrow> Inr False
      | Some n \<Rightarrow>
          (case subscript cfg ''critical_battery_threshold'' of
             Inl err \<Rightarrow> Inl err
           | Inr critical \<Rightarrow> py_int_le (int n) critical))"

definition critical_notification :: "string \<Rightarrow> nat option \<Rightarrow> ui_event" where
  "critical_notification half level =
     ShowNotification ''Critical Battery Warning''
       (half @ '' keyboard half battery is critically low ('' @ level_str level @ '')'') True"

definition emit :: "ui_event \<Rightarrow> monitor \<Rightarrow> monitor" where
  "emit ev m = m\<lparr>ui_events := ui_events m @ [ev]\<rparr>"

definition update_tray :: "monitor \<Rightarrow> error option \<times> monitor" where
  "update_tray m =
     (case generate_tray_icon m of
        Inl err \<Rightarrow> (Some err, m)
      | Inr img \<Rightarrow>
          (let b = battery_levels m;
               m1 = (case img of None \<Rightarrow> m | Some (lc, rc) \<Rightarrow> emit (UpdateIcon lc rc) m);
               tooltip = ''ZMK Battery Monitor - Left: '' @ level_str (left b) @
                         '', Right: '' @ level_str (right b);
               m2 = emit (UpdateTitle tooltip) m1
           in case is_critical (config m) (left b) of
                Inl err \<Rightarrow> (Some err, m2)
              | Inr True \<Rightarrow> (None, emit (critical_notification ''Left'' (left b)) m2)
              | Inr False \<Rightarrow>
                  (case is_critical (config m) (right b) of
                     Inl err \<Rightarrow> (Some err, m2)
                   | Inr True \<Rightarrow> (None, emit (critical_notification ''Right'' (right b)) m2)
                   | Inr False \<Rightarrow> (None, m2))))"

subsection \<open>One cycle of \<^verbatim>\<open>monitoring_loop\<close>\<close>

text \<open>The body of the \<^verbatim>\<open>try\<close> of the loop, with the exception that leaves it, if any.\<close>

definition cycle_body :: "env \<Rightarrow> monitor \<Rightarrow> error option \<times> monitor" where
  "cycle_body e m =
     (case find_keyboard e m of
        (Inl err, m1) \<Rightarrow> (Some err, m1)
      | (Inr False, m1) \<Rightarrow> (None, m1)
      | (Inr True, m1) \<Rightarrow>
          (case read_battery_levels e m1 of
             (Inl err, m2) \<Rightarrow> (Some err, m2)
           | (Inr b, m2) \<Rightarrow> if icon m2 then update_tray m2 else (None, m2)))"

text \<open>The \<^verbatim>\<open>try\<close> statement with its handler \<^verbatim>\<open>except Exception\<close>, which only logs:
  the exception that leaves the statement, if any, and the monitor as the loop finds it
  when it enters the sleep phase.\<close>

definition try_cycle :: "env \<Rightarrow> monitor \<Rightarrow> error option \<times> monitor" where
  "try_cycle e m =
     (case cycle_body e m of
        (Some err, m') \<Rightarrow> (None, m')
      | (None, m') \<Rightarrow> (None, m'))"

definition monitoring_cycle :: "env \<Rightarrow> monitor \<Rightarrow> monitor" where
  "monitoring_cycle e m = snd (try_cycle e m)"

subsection \<open>The sleep phase and the loop\<close>

text \<open>
  \<^verbatim>\<open>self.running\<close> is written by another thread. What the worker sees of it is the
  sequence of the values its reads return: \<open>flag k\<close> is the value of its \<open>k\<close>-th read.
\<close>

text \<open>The number of rounds of \<^verbatim>\<open>for _ in range(self.config["update_interval"])\<close>:
  \<^verbatim>\<open>range\<close> takes an integer, and is empty for a negative one.\<close>

definition sleep_rounds :: "json \<Rightarrow> error + nat" where
  "sleep_rounds cfg =
     (case subscript cfg ''update_interval'' of
        Inl err \<Rightarrow> Inl err
      | Inr interval \<Rightarrow>
          (case as_int interval of
             None \<Rightarrow> Inl TypeError
           | Some n \<Rightarrow> Inr (nat n)))"








subsection \<open>Auxiliary notions and concrete inputs\<close>

fun is_notification :: "ui_event \<Rightarrow> bool" where
  "is_notification (ShowNotification title message warning) = True"
| "is_notification ev = False"

text \<open>A freshly constructed monitor with the default configuration, and one paired with
  a keyboard (vendor 0x1D50, product 0x615E).\<close>

definition fresh_monitor :: monitor where
  "fresh_monitor =
     \<lparr>config = JDict DEFAULT_CONFIG,
      battery_levels = \<lparr>left = None, right = None, timestamp = None\<rparr>,
      icon = False, gui_available = False, config_file = Missing, log_file = None,
      ui_events = [], hid_requests = []\<rparr>"

definition paired_config :: "(string \<times> json) list" where
  "paired_config =
     AList.update ''device_name'' (JStr ''ZMK Project Corne'')
       (AList.update ''product_id'' (JInt 0x615E)
         (AList.update ''vendor_id'' (JInt 0x1D50) DEFAULT_CONFIG))"

definition paired_monitor :: monitor where
  "paired_monitor = fresh_monitor\<lparr>config := JDict paired_config\<rparr>"

definition corne :: hid_info where
  "corne = \<lparr>vendor_id = 0x1D50, product_id = 0x615E, path = ''/dev/hidraw3'',
     manufacturer_string = ''ZMK Project'', product_string = ''Corne''\<rparr>"

text \<open>A world in which every write succeeds and the clock shows a fixed time.\<close>

definition world :: "hid_info list \<Rightarrow> bool \<Rightarrow> (int \<Rightarrow> byte list option) \<Rightarrow> env" where
  "world devices opens answers =
     \<lparr>hid_enumerate = Some devices, open_ok = opens,
      get_feature_report = (\<lambda>k. answers), now = ''2025-01-01 12:00:00'',
      config_write = Written, log_write_ok = True\<rparr>"

text \<open>A keyboard that answers report 1 with the bytes \<open>[0x01, 75, 60, 0, 0]\<close> and
  supports no other report.\<close>

definition answers_75_60 :: "int \<Rightarrow> byte list option" where
  "answers_75_60 report_id = (if report_id = 1 then Some [1, 75, 60, 0, 0] else None)"

text \<open>An answer to a feature report request that gives the scan nothing: the request
  raised, the report is not longer than two bytes, or none of its scanned bytes is a
  potential battery value.\<close>

definition yields_nothing :: "byte list option \<Rightarrow> bool" where
  "yields_nothing answer =
     (case answer of
        None \<Rightarrow> True
      | Some report \<Rightarrow> length report \<le> 2 \<or> potential_battery_values report = [])"

text \<open>The device opens: both IDs are in the configuration, are integers, and
  \<^verbatim>\<open>device.open\<close> succeeds.\<close>

definition device_opens :: "env \<Rightarrow> monitor \<Rightarrow> bool" where
  "device_opens e m =
     (case subscript (config m) ''vendor_id'' of
        Inl err \<Rightarrow> False
      | Inr vid \<Rightarrow>
          (case subscript (config m) ''product_id'' of
             Inl err \<Rightarrow> False
           | Inr pid \<Rightarrow> as_int vid \<noteq> None \<and> as_int pid \<noteq> None \<and> open_ok e))"

text \<open>The test \<^verbatim>\<open>0 <= report[i] <= 100\<close>.\<close>

definition in_range :: "byte list \<Rightarrow> nat \<Rightarrow> bool" where
  "in_range report i = (0 \<le> unat (report ! i) \<and> unat (report ! i) \<le> 100)"

text \<open>The paired monitor with a learned mapping.\<close>

definition learned_monitor :: "int \<Rightarrow> int \<Rightarrow> int \<Rightarrow> monitor" where
  "learned_monitor rid li ri =
     paired_monitor\<lparr>config := JDict
       (AList.update ''right_battery_index'' (JInt ri)
         (AList.update ''left_battery_index'' (JInt li)
           (AList.update ''report_id'' (JInt rid) paired_config)))\<rparr>"

text \<open>Keyboards for the examples, given by their answer to each report ID.\<close>

definition answers_single :: "int \<Rightarrow> byte list option" where
  "answers_single report_id =
     (if report_id = 2 then Some [2, 200, 42, 200, 200]
      else if report_id = 3 then Some [3, 10, 20, 30, 40]
      else None)"

definition answers_sparse :: "int \<Rightarrow> byte list option" where
  "answers_sparse report_id = (if report_id = 1 then Some [1, 200, 75, 200, 60] else None)"

definition answers_two_reports :: "int \<Rightarrow> byte list option" where
  "answers_two_reports report_id =
     (if report_id = 1 then Some [1, 10, 20, 200, 200]
      else if report_id = 2 then Some [2, 80, 90, 200, 200]
      else None)"

definition answers_far :: "int \<Rightarrow> byte list option" where
  "answers_far report_id =
     (if report_id = 1 then Some [1, 200, 200, 200, 200, 80, 90] else None)"

definition answers_none :: "int \<Rightarrow> byte list option" where
  "answers_none report_id = None"

text \<open>A monitor with the tray active whose last reading is 5% left and 3% right, one
  with the tray active and no reading yet, a device that only its manufacturer string
  calls a keyboard, and a configuration file that holds the list of the default keys.\<close>

definition low_monitor :: monitor where
  "low_monitor = paired_monitor\<lparr>battery_levels :=
      \<lparr>left = Some 5, right = Some 3, timestamp = Some ''2025-01-01 12:00:00''\<rparr>,
      icon := True, gui_available := True\<rparr>"

definition keyboard_works :: hid_info where
  "keyboard_works = \<lparr>vendor_id = 0x04D9, product_id = 0x0141, path = ''/dev/hidraw1'',
     manufacturer_string = ''Keyboard Works'', product_string = ''Model X''\<rparr>"

definition tray_monitor :: monitor where
  "tray_monitor = paired_monitor\<lparr>icon := True, gui_available := True\<rparr>"

definition key_list :: json where
  "key_list =
     JList [JStr ''update_interval'', JStr ''low_battery_threshold'',
       JStr ''critical_battery_threshold'', JStr ''vendor_id'', JStr ''product_id'',
       JStr ''device_name'', JStr ''report_id'', JStr ''left_battery_index'',
       JStr ''right_battery_index'']"

text \<open>The paired monitor with a stored mapping that names the left index only, a
  worker between two cycles, and a flag that reads true three times and false from its
  fourth read on.\<close>

definition single_monitor :: monitor where
  "single_monitor =
     paired_monitor\<lparr>config := JDict
       (AList.update ''left_battery_index'' (JInt 5)
         (AList.update ''report_id'' (JInt 1) paired_config))\<rparr>"



section \<open>What the resolver leaves alone\<close>

lemma save_config_fields [simp]:
  "config (save_config e m) = config m"
  "log_file (save_config e m) = log_file m"
  "battery_levels (save_config e m) = battery_levels m"
  "ui_events (save_config e m) = ui_events m"
  "hid_requests (save_config e m) = hid_requests m"
  "icon (save_config e m) = icon m"
  "gui_available (save_config e m) = gui_available m"
  by (simp_all add: save_config_def split: write_outcome.splits)

lemma save_config_file:
  "config_file (save_config e m) =
     (case config_write e of
        Written \<Rightarrow> Parsed (config m)
      | Refused \<Rightarrow> config_file m
      | Truncated \<Rightarrow> Unreadable)"
  by (simp add: save_config_def split: write_outcome.splits)

lemma store_report_id_frame:
  "log_file (store_report_id e rid li ri m) = log_file m"
  "battery_levels (store_report_id e rid li ri m) = battery_levels m"
  "ui_events (store_report_id e rid li ri m) = ui_events m"
  "hid_requests (store_report_id e rid li ri m) = hid_requests m"
  "icon (store_report_id e rid li ri m) = icon m"
  "gui_available (store_report_id e rid li ri m) = gui_available m"
  by (simp_all add: store_report_id_def split: sum.splits)

lemma scan_reports_frame:
  "scan_reports e m rs = (m', l, r) \<Longrightarrow>
     log_file m' = log_file m \<and> battery_levels m' = battery_levels m \<and>
     ui_events m' = ui_events m \<and> hid_requests m' = hid_requests m \<and>
     icon m' = icon m \<and> gui_available m' = gui_available m"
  by (induction e m rs rule: scan_reports.induct)
     (auto simp: store_report_id_frame split: list.splits prod.splits)

lemma read_stored_frame:
  "read_stored e m = (m', l, r) \<Longrightarrow>
     log_file m' = log_file m \<and> battery_levels m' = battery_levels m \<and>
     ui_events m' = ui_events m \<and> config m' = config m \<and> config_file m' = config_file m \<and>
     icon m' = icon m \<and> gui_available m' = gui_available m"
  by (auto simp: read_stored_def Let_def split: sum.splits option.splits)

lemma read_device_frame:
  "read_device e m = (m', l, r) \<Longrightarrow>
     log_file m' = log_file m \<and> battery_levels m' = battery_levels m \<and>
     ui_events m' = ui_events m \<and> icon m' = icon m \<and> gui_available m' = gui_available m"
  unfolding read_device_def Let_def
  by (auto split: sum.splits option.splits prod.splits if_splits bool.splits
      dest!: scan_reports_frame read_stored_frame)

section \<open>The persisted series\<close>

lemma read_battery_levels_logged:
  assumes "log_write_ok e"
  shows "log_file (snd (read_battery_levels e m)) =
           Some ((case log_file m of None \<Rightarrow> csv_header | Some content \<Rightarrow> content) @
                 csv_row (battery_levels (snd (read_battery_levels e m))))"
    and "timestamp (battery_levels (snd (read_battery_levels e m))) = Some (now e)"
    and "fst (read_battery_levels e m) = Inr (battery_levels (snd (read_battery_levels e m)))"
  using assms
  by (auto simp: read_battery_levels_def log_battery_levels_def Let_def
      split: prod.splits option.splits dest!: read_device_frame)

lemma read_battery_levels_values:
  "left (battery_levels (snd (read_battery_levels e m))) = fst (snd (read_device e m))"
  "right (battery_levels (snd (read_battery_levels e m))) = snd (snd (read_device e m))"
  by (auto simp: read_battery_levels_def log_battery_levels_def Let_def split: prod.splits)

lemma potential_battery_values_75_60:
  "potential_battery_values [1, 75, 60, 0, 0] = [(1, 75), (2, 60), (3, 0), (4, 0)]"
  by (simp add: potential_battery_values_def)

lemma read_device_first_report:
  assumes "subscript (config m) ''vendor_id'' = Inr (JInt vid)"
    and "subscript (config m) ''product_id'' = Inr (JInt pid)"
    and "open_ok e"
    and "get_feature_report e 0 1 = Some report" and "length report > 2"
    and "potential_battery_values report = (i, l) # (j, r) # further"
  shows "snd (read_device e m) = (Some l, Some r)"
  using assms
  by (simp add: read_device_def report_ids_def Let_def split: prod.splits)

text \<open>
  C8. Every call of \<^verbatim>\<open>read_battery_levels\<close> whose write to the CSV file succeeds appends
  exactly one row \<open>timestamp,left,right\<close> to the file: the earlier content is kept, and
  the header is written first only when the file did not exist. An absent battery
  value is written as the empty field, a present one as its decimal number. For a
  keyboard that answers report 1 with \<open>[0x01, 75, 60, 0, 0]\<close> (opened with integer
  vendor and product IDs) the reading is left 75, right 60 and the row is
  \<open>timestamp,75,60\<close>.
\<close>

theorem log_battery_levels_row:
  "log_write_ok e \<Longrightarrow>
   (let m' = snd (read_battery_levels e m); b = battery_levels m';
        existing = (case log_file m of None \<Rightarrow> csv_header | Some content \<Rightarrow> content)
    in log_file m' =
         Some (existing @ now e @ '','' @ csv_field (left b) @ '','' @ csv_field (right b) @ newline)
       \<and> csv_field None = [] \<and> (\<forall>n. csv_field (Some n) = str_of_nat n)
       \<and> (subscript (config m) ''vendor_id'' = Inr (JInt vid) \<and>
          subscript (config m) ''product_id'' = Inr (JInt pid) \<and> open_ok e \<and>
          get_feature_report e 0 1 = Some [1, 75, 60, 0, 0] \<longrightarrow>
            fst (read_battery_levels e m) =
              Inr \<lparr>left = Some 75, right = Some 60, timestamp = Some (now e)\<rparr> \<and>
            log_file m' = Some (existing @ now e @ '',75,60'' @ newline)))"
proof -
  assume ok: "log_write_ok e"
  let ?m' = "snd (read_battery_levels e m)"
  let ?b = "battery_levels ?m'"
  let ?existing = "case log_file m of None \<Rightarrow> csv_header | Some content \<Rightarrow> content"
  have row: "log_file ?m' = Some (?existing @ csv_row ?b)"
    and ts: "timestamp ?b = Some (now e)"
    and res: "fst (read_battery_levels e m) = Inr ?b"
    using read_battery_levels_logged [OF ok] by auto
  have fmt: "log_file ?m' =
      Some (?existing @ now e @ '','' @ csv_field (left ?b) @ '','' @ csv_field (right ?b) @ newline)"
    using row ts by (simp add: csv_row_def)
  have ex: "fst (read_battery_levels e m) =
              Inr \<lparr>left = Some 75, right = Some 60, timestamp = Some (now e)\<rparr> \<and>
            log_file ?m' = Some (?existing @ now e @ '',75,60'' @ newline)"
    if h: "subscript (config m) ''vendor_id'' = Inr (JInt vid)"
          "subscript (config m) ''product_id'' = Inr (JInt pid)" "open_ok e"
          "get_feature_report e 0 1 = Some [1, 75, 60, 0, 0]"
  proof -
    have "snd (read_device e m) = (Some 75, Some 60)"
      using read_device_first_report [OF h(1) h(2) h(3) h(4) _ potential_battery_values_75_60]
      by simp
    then have lr: "left ?b = Some 75" "right ?b = Some 60"
      by (simp_all add: read_battery_levels_values)
    have "?b = \<lparr>left = Some 75, right = Some 60, timestamp = Some (now e)\<rparr>"
      using lr ts by (cases ?b) simp
    moreover have "str_of_nat 75 = ''75''" "str_of_nat 60 = ''60''"
      by (simp_all add: str_of_nat.simps)
    ultimately show ?thesis
      using res fmt by (simp add: csv_field_def)
  qed
  show ?thesis
    unfolding Let_def using fmt ex by (simp add: csv_field_def)
qed

theorem log_battery_levels_row_witness:
  "log_write_ok (world [corne] True answers_75_60) \<and>
   subscript (config paired_monitor) ''vendor_id'' = Inr (JInt 0x1D50) \<and>
   subscript (config paired_monitor) ''product_id'' = Inr (JInt 0x615E) \<and>
   open_ok (world [corne] True answers_75_60) \<and>
   get_feature_report (world [corne] True answers_75_60) 0 1 = Some [1, 75, 60, 0, 0] \<and>
   fst (read_battery_levels (world [corne] True answers_75_60) paired_monitor) =
      Inr \<lparr>left = Some 75, right = Some 60, timestamp = Some ''2025-01-01 12:00:00''\<rparr> \<and>
   log_file (snd (read_battery_levels (world [corne] True answers_75_60) paired_monitor)) =
      Some (''timestamp,left_battery,right_battery'' @ newline @
            ''2025-01-01 12:00:00,75,60'' @ newline)"
proof -
  let ?e = "world [corne] True answers_75_60"
  have h: "log_write_ok ?e" "subscript (config paired_monitor) ''vendor_id'' = Inr (JInt 0x1D50)"
    "subscript (config paired_monitor) ''product_id'' = Inr (JInt 0x615E)" "open_ok ?e"
    "get_feature_report ?e 0 1 = Some [1, 75, 60, 0, 0]"
    by (simp_all add: world_def answers_75_60_def paired_monitor_def fresh_monitor_def
        paired_config_def DEFAULT_CONFIG_def)
  have v: "now ?e = ''2025-01-01 12:00:00''" "log_file paired_monitor = None"
    by (simp_all add: world_def paired_monitor_def fresh_monitor_def)
  have "fst (read_battery_levels ?e paired_monitor) =
          Inr \<lparr>left = Some 75, right = Some 60, timestamp = Some (now ?e)\<rparr> \<and>
        log_file (snd (read_battery_levels ?e paired_monitor)) =
          Some ((case log_file paired_monitor of None \<Rightarrow> csv_header | Some content \<Rightarrow> content) @
                now ?e @ '',75,60'' @ newline)"
    using log_battery_levels_row [OF h(1), of paired_monitor "0x1D50" "0x615E"] h
    unfolding Let_def by blast
  then show ?thesis
    using h by (simp add: v csv_header_def)
qed

section \<open>The scan of the feature reports\<close>

lemma not_yields_nothing:
  "\<not> yields_nothing answer \<longleftrightarrow>
     (\<exists>report. answer = Some report \<and> length report > 2 \<and> potential_battery_values report \<noteq> [])"
  by (auto simp: yields_nothing_def split: option.splits)

lemma scan_reports_decided:
  "potential_battery_values report \<noteq> [] \<Longrightarrow>
     scan_reports e m ((rid, report) # rest) = scan_reports e m [(rid, report)]"
  by (auto split: list.splits)

lemma scan_reports_skip:
  "potential_battery_values report = [] \<Longrightarrow>
     scan_reports e m ((rid, report) # rest) = scan_reports e m rest"
  by simp

lemma scan_collect_winner:
  assumes "i < length ids" and "dev (k + i) (ids ! i) = Some report" and "length report > 2"
    and "potential_battery_values report \<noteq> []"
    and "\<forall>j<i. yields_nothing (dev (k + j) (ids ! j))"
  shows "scan_reports e m (collect_reports dev k ids) = scan_reports e m [(ids ! i, report)]"
  using assms
proof (induction ids arbitrary: k i)
  case Nil
  then show ?case by simp
next
  case (Cons rid ids)
  show ?case
  proof (cases i)
    case 0
    with Cons.prems show ?thesis
      using scan_reports_decided [of report e m rid "collect_reports dev (Suc k) ids"] by simp
  next
    case (Suc i')
    have head: "yields_nothing (dev k rid)"
      using Cons.prems(5) Suc by force
    have tl: "\<forall>j<i'. yields_nothing (dev (Suc k + j) (ids ! j))"
    proof (intro allI impI)
      fix j assume "j < i'"
      then have "Suc j < i" using Suc by simp
      then have "yields_nothing (dev (k + Suc j) ((rid # ids) ! Suc j))"
        using Cons.prems(5) by blast
      then show "yields_nothing (dev (Suc k + j) (ids ! j))" by simp
    qed
    have "scan_reports e m (collect_reports dev (Suc k) ids) = scan_reports e m [(ids ! i', report)]"
      using Cons.IH [of i' "Suc k"] Cons.prems Suc tl by simp
    moreover have "scan_reports e m (collect_reports dev k (rid # ids)) =
        scan_reports e m (collect_reports dev (Suc k) ids)"
      using head by (auto simp: yields_nothing_def split: option.splits)
    ultimately show ?thesis using Suc by simp
  qed
qed

lemma scan_collect_nothing:
  assumes "\<forall>j<length ids. yields_nothing (dev (k + j) (ids ! j))"
  shows "scan_reports e m (collect_reports dev k ids) = (m, None, None)"
  using assms
proof (induction ids arbitrary: k)
  case Nil
  then show ?case by simp
next
  case (Cons rid ids)
  have head: "yields_nothing (dev k rid)"
    using Cons.prems by force
  have tl: "\<forall>j<length ids. yields_nothing (dev (Suc k + j) (ids ! j))"
  proof (intro allI impI)
    fix j assume "j < length ids"
    then have "yields_nothing (dev (k + Suc j) ((rid # ids) ! Suc j))"
      using Cons.prems by auto
    then show "yields_nothing (dev (Suc k + j) (ids ! j))" by simp
  qed
  have "scan_reports e m (collect_reports dev k (rid # ids)) =
        scan_reports e m (collect_reports dev (Suc k) ids)"
    using head by (auto simp: yields_nothing_def split: option.splits)
  then show ?case using Cons.IH [OF tl] by simp
qed

lemma report_ids_nth: "i < 8 \<Longrightarrow> report_ids ! i = int i + 1"
proof -
  assume "i < 8"
  then have "i \<in> {0, 1, 2, 3, 4, 5, 6, 7}" by auto
  then show ?thesis by (auto simp: report_ids_def)
qed

lemma length_report_ids: "length report_ids = 8"
  by (simp add: report_ids_def)

lemma read_device_opened:
  "device_opens e m \<Longrightarrow>
     read_device e m =
       (case scan_reports e (m\<lparr>hid_requests := hid_requests m @ report_ids\<rparr>)
               (collect_reports (get_feature_report e) 0 report_ids) of
          (m2, left_battery, right_battery) \<Rightarrow>
            if left_battery = None \<and> right_battery = None then
              (case py_in ''report_id'' (config m2) of
                 Inl err \<Rightarrow> (m2, None, None)
               | Inr False \<Rightarrow> (m2, None, None)
               | Inr True \<Rightarrow> read_stored e m2)
            else (m2, left_battery, right_battery))"
  by (auto simp: device_opens_def read_device_def Let_def split: sum.splits)

lemma read_device_closed:
  "\<not> device_opens e m \<Longrightarrow> read_device e m = (m, None, None)"
  by (auto simp: device_opens_def read_device_def Let_def split: sum.splits)

lemma scan_reports_single_values:
  "potential_battery_values report \<noteq> [] \<Longrightarrow>
   fst (snd (scan_reports e m [(rid, report)])) \<noteq> None"
  by (auto split: list.splits)

lemma read_device_winner:
  assumes "device_opens e m"
    and "i < 8" and "get_feature_report e i (int i + 1) = Some report" and "length report > 2"
    and "potential_battery_values report \<noteq> []"
    and "\<forall>j<i. yields_nothing (get_feature_report e j (int j + 1))"
  shows "read_device e m =
           scan_reports e (m\<lparr>hid_requests := hid_requests m @ report_ids\<rparr>) [(int i + 1, report)]"
proof -
  let ?m1 = "m\<lparr>hid_requests := hid_requests m @ report_ids\<rparr>"
  have "\<forall>j<i. yields_nothing (get_feature_report e (0 + j) (report_ids ! j))"
    using assms(2,6) by (simp add: report_ids_nth)
  then have eq: "scan_reports e ?m1 (collect_reports (get_feature_report e) 0 report_ids) =
      scan_reports e ?m1 [(int i + 1, report)]"
    using scan_collect_winner [of i report_ids "get_feature_report e" 0 report e ?m1] assms
    by (simp add: report_ids_nth length_report_ids)
  obtain m2 l r where s: "scan_reports e ?m1 [(int i + 1, report)] = (m2, l, r)"
    by (cases "scan_reports e ?m1 [(int i + 1, report)]") auto
  have "l \<noteq> None"
    using scan_reports_single_values [OF assms(5), of e ?m1 "int i + 1"] s by simp
  then show ?thesis
    using read_device_opened [OF assms(1)] eq s by (auto simp del: scan_reports.simps)
qed

lemma read_device_nothing:
  assumes "device_opens e m"
    and "\<forall>j<8. yields_nothing (get_feature_report e j (int j + 1))"
  shows "read_device e m =
     (let m1 = m\<lparr>hid_requests := hid_requests m @ report_ids\<rparr> in
      case py_in ''report_id'' (config m) of
        Inl err \<Rightarrow> (m1, None, None)
      | Inr False \<Rightarrow> (m1, None, None)
      | Inr True \<Rightarrow> read_stored e m1)"
proof -
  let ?m1 = "m\<lparr>hid_requests := hid_requests m @ report_ids\<rparr>"
  have "\<forall>j<length report_ids. yields_nothing (get_feature_report e (0 + j) (report_ids ! j))"
    using assms(2) by (simp add: report_ids_nth length_report_ids)
  then have "scan_reports e ?m1 (collect_reports (get_feature_report e) 0 report_ids) =
      (?m1, None, None)"
    by (rule scan_collect_nothing)
  then show ?thesis
    using read_device_opened [OF assms(1)] by (simp add: Let_def)
qed

lemma potential_battery_values_filter:
  "potential_battery_values report =
     map (\<lambda>i. (i, unat (report ! i))) (filter (in_range report) [1..<min 5 (length report)])"
proof -
  have "concat (map (\<lambda>i. if P i then [f i] else []) xs) = map f (filter P xs)"
    for P :: "nat \<Rightarrow> bool" and f :: "nat \<Rightarrow> nat \<times> nat" and xs
    by (induction xs) auto
  then show ?thesis
    by (simp add: potential_battery_values_def in_range_def [abs_def])
qed

lemma upt_split: "a \<le> b \<Longrightarrow> b \<le> c \<Longrightarrow> [a..<c] = [a..<b] @ [b..<c]"
  using upt_add_eq_append [of a b "c - b"] by simp

lemma potential_battery_values_member:
  "(i, v) \<in> set (potential_battery_values report) \<Longrightarrow>
     v = unat (report ! i) \<and> 1 \<le> i \<and> i < min 5 (length report) \<and> v \<le> 100"
  by (auto simp: potential_battery_values_filter in_range_def)

lemma filter_upt_none:
  "(\<forall>k. a \<le> k \<and> k < b \<longrightarrow> \<not> P k) \<Longrightarrow> filter P [a..<b] = []"
  by (auto simp: filter_empty_conv)

lemma potential_battery_values_first_two:
  assumes "1 \<le> li" and "li < ri" and "ri < min 5 (length report)"
    and "in_range report li" and "in_range report ri"
    and "\<forall>k. 1 \<le> k \<and> k < ri \<and> k \<noteq> li \<longrightarrow> \<not> in_range report k"
  shows "\<exists>further. potential_battery_values report =
           (li, unat (report ! li)) # (ri, unat (report ! ri)) # further"
proof -
  let ?n = "min 5 (length report)"
  have split: "[1..<?n] = [1..<li] @ li # [Suc li..<ri] @ ri # [Suc ri..<?n]"
  proof -
    have "[1..<?n] = [1..<li] @ [li..<?n]"
      using assms(1,2,3) by (intro upt_split) auto
    also have "[li..<?n] = li # [Suc li..<?n]"
      using assms(2,3) by (simp add: upt_conv_Cons)
    also have "[Suc li..<?n] = [Suc li..<ri] @ [ri..<?n]"
      using assms(2,3) by (intro upt_split) auto
    also have "[ri..<?n] = ri # [Suc ri..<?n]"
      using assms(3) by (simp add: upt_conv_Cons)
    finally show ?thesis by simp
  qed
  have a: "filter (in_range report) [1..<li] = []"
    using assms(2,6) by (intro filter_upt_none) auto
  have b: "filter (in_range report) [Suc li..<ri] = []"
    using assms(1,6) by (intro filter_upt_none) auto
  have "filter (in_range report) [1..<?n] = li # ri # filter (in_range report) [Suc ri..<?n]"
    unfolding split using a b assms(4,5) by simp
  then show ?thesis
    unfolding potential_battery_values_filter by simp
qed

lemma subscript_Inr_dict: "subscript cfg k = Inr v \<Longrightarrow> \<exists>kvs. cfg = JDict kvs"
  by (cases cfg) auto

lemma device_opens_dict: "device_opens e m \<Longrightarrow> \<exists>kvs. config m = JDict kvs"
  by (auto simp: device_opens_def split: sum.splits dest: subscript_Inr_dict)

lemma store_report_id_same:
  "dict_get (config m) ''report_id'' = Inr cached \<Longrightarrow> py_eq_int cached rid \<Longrightarrow>
     store_report_id e rid li ri m = m"
  by (simp add: store_report_id_def)

lemma store_report_id_new:
  "config m = JDict kvs \<Longrightarrow> dict_get (config m) ''report_id'' = Inr cached \<Longrightarrow>
   \<not> py_eq_int cached rid \<Longrightarrow>
     store_report_id e rid li ri m =
       save_config e (m\<lparr>config := JDict (AList.update ''right_battery_index'' ri
         (AList.update ''left_battery_index'' li (AList.update ''report_id'' (JInt rid) kvs)))\<rparr>)"
  by (simp add: store_report_id_def)

lemma store_report_id_changed:
  "config (store_report_id e rid li ri m) \<noteq> config m \<or>
   config_file (store_report_id e rid li ri m) \<noteq> config_file m \<Longrightarrow>
     \<exists>cached. dict_get (config m) ''report_id'' = Inr cached \<and> \<not> py_eq_int cached rid"
  by (auto simp: store_report_id_def split: sum.splits if_splits)

lemma scan_single_config:
  "scan_reports e m [(rid, report)] = (m', l, r) \<Longrightarrow>
   config m' \<noteq> config m \<or> config_file m' \<noteq> config_file m \<Longrightarrow>
     \<exists>cached. dict_get (config m) ''report_id'' = Inr cached \<and> \<not> py_eq_int cached rid"
  by (auto split: list.splits intro: store_report_id_changed)

lemma read_battery_levels_frame:
  "config (snd (read_battery_levels e m)) = config (fst (read_device e m))"
  "config_file (snd (read_battery_levels e m)) = config_file (fst (read_device e m))"
  "hid_requests (snd (read_battery_levels e m)) = hid_requests (fst (read_device e m))"
  by (auto simp: read_battery_levels_def log_battery_levels_def Let_def split: prod.splits)

lemma potential_battery_values_nonempty:
  "potential_battery_values report \<noteq> [] \<longleftrightarrow>
     (\<exists>k. 1 \<le> k \<and> k < min 5 (length report) \<and> unat (report ! k) \<le> 100)"
  by (auto simp: potential_battery_values_filter filter_empty_conv in_range_def)

lemma subscript_update:
  "subscript (JDict (AList.update k v kvs)) k' = (if k' = k then Inr v else subscript (JDict kvs) k')"
  by (simp add: update_conv')

lemma first_answer_with_value:
  fixes n :: nat
  assumes "\<not> (\<forall>j<n. yields_nothing (f j))"
  shows "\<exists>i<n. \<not> yields_nothing (f i) \<and> (\<forall>j<i. yields_nothing (f j))"
proof -
  let ?P = "\<lambda>i. i < n \<and> \<not> yields_nothing (f i)"
  from assms have "\<exists>i. ?P i" by blast
  then obtain i where i: "?P i" "\<forall>j<i. \<not> ?P j"
    using exists_least_iff [of ?P] by auto
  have "yields_nothing (f j)" if "j < i" for j
    using i that by (meson less_trans)
  then show ?thesis using i(1) by blast
qed

lemma store_report_id_other_keys:
  assumes "key \<notin> {''report_id'', ''left_battery_index'', ''right_battery_index''}"
  shows "subscript (config (store_report_id e rid li ri m)) key = subscript (config m) key"
proof (cases "config m")
  case (JDict kvs)
  then show ?thesis
    using assms
    by (simp add: store_report_id_def update_conv' split: option.splits)
qed (simp_all add: store_report_id_def)

lemma scan_reports_other_keys:
  assumes "key \<notin> {''report_id'', ''left_battery_index'', ''right_battery_index''}"
  shows "subscript (config (fst (scan_reports e m rs))) key = subscript (config m) key"
  using assms
  by (induction e m rs rule: scan_reports.induct)
     (auto simp: store_report_id_other_keys split: list.splits)

lemma read_stored_config: "config (fst (read_stored e m)) = config m"
  by (auto simp: read_stored_def Let_def split: sum.splits option.splits)

lemma read_device_other_keys:
  assumes "key \<notin> {''report_id'', ''left_battery_index'', ''right_battery_index''}"
  shows "subscript (config (fst (read_device e m))) key = subscript (config m) key"
proof (cases "device_opens e m")
  case False
  then show ?thesis by (simp add: read_device_closed)
next
  case True
  let ?m1 = "m\<lparr>hid_requests := hid_requests m @ report_ids\<rparr>"
  let ?rs = "collect_reports (get_feature_report e) 0 report_ids"
  obtain m2 l r where s: "scan_reports e ?m1 ?rs = (m2, l, r)"
    by (cases "scan_reports e ?m1 ?rs") auto
  have "subscript (config m2) key = subscript (config m) key"
    using scan_reports_other_keys [OF assms, of e ?m1 ?rs] s by simp
  then show ?thesis
    using read_device_opened [OF True] s read_stored_config [of e m2]
    by (auto split: sum.splits bool.splits)
qed

lemma read_battery_levels_nothing:
  assumes "\<forall>i<8. yields_nothing (get_feature_report e i (int i + 1))"
  shows "config (snd (read_battery_levels e m)) = config m \<and>
         config_file (snd (read_battery_levels e m)) = config_file m"
proof (cases "device_opens e m")
  case False
  then show ?thesis by (simp add: read_battery_levels_frame read_device_closed)
next
  case True
  let ?m1 = "m\<lparr>hid_requests := hid_requests m @ report_ids\<rparr>"
  obtain m2 l r where rs: "read_stored e ?m1 = (m2, l, r)"
    by (cases "read_stored e ?m1") auto
  have "config m2 = config m \<and> config_file m2 = config_file m"
    using read_stored_frame [OF rs] by simp
  then show ?thesis
    using read_device_nothing [OF True assms] rs
    by (auto simp: read_battery_levels_frame Let_def split: sum.splits bool.splits)
qed

lemma read_battery_levels_changed:
  assumes ch: "config (snd (read_battery_levels e m)) \<noteq> config m \<or>
               config_file (snd (read_battery_levels e m)) \<noteq> config_file m"
  shows "\<exists>i report cached. i < 8 \<and> get_feature_report e i (int i + 1) = Some report \<and>
           length report > 2 \<and> potential_battery_values report \<noteq> [] \<and>
           (\<forall>j<i. yields_nothing (get_feature_report e j (int j + 1))) \<and>
           dict_get (config m) ''report_id'' = Inr cached \<and> \<not> py_eq_int cached (int i + 1)"
proof -
  let ?m1 = "m\<lparr>hid_requests := hid_requests m @ report_ids\<rparr>"
  have opens: "device_opens e m"
  proof (rule ccontr)
    assume "\<not> device_opens e m"
    then have "read_device e m = (m, None, None)" by (rule read_device_closed)
    with ch show False by (simp add: read_battery_levels_frame)
  qed
  have "\<not> (\<forall>i<8. yields_nothing (get_feature_report e i (int i + 1)))"
    using ch read_battery_levels_nothing [of e m] by blast
  then obtain i where i: "i < 8" "\<not> yields_nothing (get_feature_report e i (int i + 1))"
      "\<forall>j<i. yields_nothing (get_feature_report e j (int j + 1))"
    using first_answer_with_value [of 8 "\<lambda>i. get_feature_report e i (int i + 1)"] by blast
  then obtain report where rep: "get_feature_report e i (int i + 1) = Some report"
      "length report > 2" "potential_battery_values report \<noteq> []"
    by (auto simp: not_yields_nothing)
  have rd: "read_device e m = scan_reports e ?m1 [(int i + 1, report)]"
    using opens i(1) rep i(3) by (rule read_device_winner)
  obtain m2 l r where s: "scan_reports e ?m1 [(int i + 1, report)] = (m2, l, r)"
    by (cases "scan_reports e ?m1 [(int i + 1, report)]") auto
  have "config m2 \<noteq> config ?m1 \<or> config_file m2 \<noteq> config_file ?m1"
    using ch rd s by (simp add: read_battery_levels_frame del: scan_reports.simps)
  then obtain cached where "dict_get (config ?m1) ''report_id'' = Inr cached"
      "\<not> py_eq_int cached (int i + 1)"
    using scan_single_config [OF s] by blast
  then show ?thesis
    using i(1) rep i(3) by auto
qed

lemmas ex_defs = world_def paired_monitor_def fresh_monitor_def paired_config_def
  DEFAULT_CONFIG_def learned_monitor_def corne_def

lemma stored_value_in_bounds:
  assumes "subscript cfg key = Inr (JInt i)" and "0 \<le> i" and "i < int (length report)"
    and "unat (report ! nat i) \<le> 100"
  shows "stored_value cfg key report = Inr (Some (unat (report ! nat i)))"
  using assms by (simp add: stored_value_def py_lt_int_def py_index_def)

lemma subscript_py_in: "subscript cfg k = Inr v \<Longrightarrow> py_in k cfg = Inr True"
  by (cases cfg) (force split: option.splits dest: map_of_SomeD)+

lemma read_battery_levels_requests:
  assumes "device_opens e m"
  shows "\<exists>rest. hid_requests (snd (read_battery_levels e m)) = hid_requests m @ report_ids @ rest"
proof -
  let ?m1 = "m\<lparr>hid_requests := hid_requests m @ report_ids\<rparr>"
  let ?rs = "collect_reports (get_feature_report e) 0 report_ids"
  obtain m2 l r where s: "scan_reports e ?m1 ?rs = (m2, l, r)"
    by (cases "scan_reports e ?m1 ?rs") auto
  have h2: "hid_requests m2 = hid_requests m @ report_ids"
    using scan_reports_frame [OF s] by simp
  have "\<exists>rest. hid_requests (fst (read_stored e m2)) = hid_requests m2 @ rest"
    by (auto simp: read_stored_def Let_def split: sum.splits option.splits)
  then show ?thesis
    using read_device_opened [OF assms] s h2
    by (auto simp: read_battery_levels_frame split: sum.splits bool.splits)
qed

lemmas run_defs = read_battery_levels_def read_device_def log_battery_levels_def
  report_ids_def potential_battery_values_def store_report_id_def save_config_def
  read_stored_def stored_value_def py_eq_int_def py_lt_int_def py_index_def
  Let_def csv_row_def csv_field_def csv_header_def

lemma opens_paired: "device_opens (world ds True a) paired_monitor"
  "device_opens (world ds True a) (learned_monitor rid li ri)"
  by (simp_all add: device_opens_def ex_defs)

lemma winner_requests:
  assumes "device_opens e m"
    and "i < 8" and "get_feature_report e i (int i + 1) = Some report" and "length report > 2"
    and "potential_battery_values report \<noteq> []"
    and "\<forall>j<i. yields_nothing (get_feature_report e j (int j + 1))"
  shows "hid_requests (snd (read_battery_levels e m)) = hid_requests m @ report_ids"
proof -
  let ?m1 = "m\<lparr>hid_requests := hid_requests m @ report_ids\<rparr>"
  have rd: "read_device e m = scan_reports e ?m1 [(int i + 1, report)]"
    using assms by (rule read_device_winner)
  obtain m2 l r where s: "scan_reports e ?m1 [(int i + 1, report)] = (m2, l, r)"
    by (cases "scan_reports e ?m1 [(int i + 1, report)]") auto
  have "hid_requests m2 = hid_requests ?m1"
    using scan_reports_frame [OF s] by simp
  then show ?thesis
    using rd s by (simp add: read_battery_levels_frame del: scan_reports.simps)
qed

section \<open>The first report with a value decides\<close>

text \<open>
  C3. The scan goes through the kept reports (those longer than two bytes) in probe order
  0x01..0x08. The first of them with a potential battery value at positions 1 to 4
  decides the reading: what \<^verbatim>\<open>read_battery_levels\<close> does is what the scan of that one
  report does, the answers to later report IDs play no part, and no further request
  follows the eight probes. If that report has exactly one potential value, the reading
  has \<open>left\<close> equal to it and \<open>right\<close> absent.
\<close>

theorem first_report_wins:
  assumes "device_opens e m"
    and "i < 8" and "get_feature_report e i (int i + 1) = Some report" and "length report > 2"
    and "potential_battery_values report \<noteq> []"
    and "\<forall>j<i. yields_nothing (get_feature_report e j (int j + 1))"
  shows "read_device e m =
           scan_reports e (m\<lparr>hid_requests := hid_requests m @ report_ids\<rparr>) [(int i + 1, report)]
    \<and> hid_requests (snd (read_battery_levels e m)) = hid_requests m @ report_ids
    \<and> (let b = battery_levels (snd (read_battery_levels e m)) in
        case potential_battery_values report of
          [] \<Rightarrow> False
        | [(idx, v)] \<Rightarrow>
            left b = Some v \<and> right b = None \<and> v = unat (report ! idx) \<and> v \<le> 100 \<and>
            1 \<le> idx \<and> idx < min 5 (length report)
        | (li, l) # (ri, r) # further \<Rightarrow> left b = Some l \<and> right b = Some r)
    \<and> (log_write_ok e \<longrightarrow>
         fst (read_battery_levels e m) = Inr (battery_levels (snd (read_battery_levels e m))))"
proof -
  let ?m1 = "m\<lparr>hid_requests := hid_requests m @ report_ids\<rparr>"
  have rd: "read_device e m = scan_reports e ?m1 [(int i + 1, report)]"
    using assms by (rule read_device_winner)
  obtain m2 l r where s: "scan_reports e ?m1 [(int i + 1, report)] = (m2, l, r)"
    by (cases "scan_reports e ?m1 [(int i + 1, report)]") auto
  have "hid_requests m2 = hid_requests ?m1"
    using scan_reports_frame [OF s] by simp
  then have req: "hid_requests (snd (read_battery_levels e m)) = hid_requests m @ report_ids"
    using rd s by (simp add: read_battery_levels_frame del: scan_reports.simps)
  have vals: "left (battery_levels (snd (read_battery_levels e m))) = l"
      "right (battery_levels (snd (read_battery_levels e m))) = r"
    using rd s by (simp_all add: read_battery_levels_values del: scan_reports.simps)
  have "case potential_battery_values report of
          [] \<Rightarrow> False
        | [(idx, v)] \<Rightarrow>
            l = Some v \<and> r = None \<and> v = unat (report ! idx) \<and> v \<le> 100 \<and>
            1 \<le> idx \<and> idx < min 5 (length report)
        | (li, l') # (ri, r') # further \<Rightarrow> l = Some l' \<and> r = Some r'"
  proof (cases "potential_battery_values report")
    case Nil
    with assms(5) show ?thesis by simp
  next
    case (Cons p ps)
    obtain idx v where p: "p = (idx, v)" by (cases p)
    have "(idx, v) \<in> set (potential_battery_values report)"
      using Cons p by simp
    then have mem: "v = unat (report ! idx) \<and> 1 \<le> idx \<and> idx < min 5 (length report) \<and> v \<le> 100"
      by (rule potential_battery_values_member)
    show ?thesis
      using s Cons p mem by (auto split: list.splits)
  qed
  then show ?thesis
    using rd req read_battery_levels_logged(3) [of e m]
    by (auto simp add: Let_def vals simp del: scan_reports.simps split: list.splits)
qed

theorem first_report_wins_witness:
  "device_opens (world [corne] True answers_single) paired_monitor \<and>
   yields_nothing (get_feature_report (world [corne] True answers_single) 0 1) \<and>
   get_feature_report (world [corne] True answers_single) 1 2 = Some [2, 200, 42, 200, 200] \<and>
   potential_battery_values [2, 200, 42, 200, 200] = [(2, 42)] \<and>
   get_feature_report (world [corne] True answers_single) 2 3 = Some [3, 10, 20, 30, 40] \<and>
   left (battery_levels (snd (read_battery_levels (world [corne] True answers_single)
      paired_monitor))) = Some 42 \<and>
   right (battery_levels (snd (read_battery_levels (world [corne] True answers_single)
      paired_monitor))) = None \<and>
   hid_requests (snd (read_battery_levels (world [corne] True answers_single) paired_monitor)) =
     [1, 2, 3, 4, 5, 6, 7, 8]"
proof -
  let ?e = "world [corne] True answers_single"
  let ?r = "[2, 200, 42, 200, 200] :: byte list"
  have o: "device_opens ?e paired_monitor" by (rule opens_paired)
  have g: "get_feature_report ?e 1 (int 1 + 1) = Some ?r"
    "get_feature_report ?e 2 3 = Some [3, 10, 20, 30, 40]"
    by (simp_all add: world_def answers_single_def)
  have p: "potential_battery_values ?r = [(2, 42)]"
    by (simp add: potential_battery_values_def)
  have n: "yields_nothing (get_feature_report ?e 0 1)"
    by (simp add: yields_nothing_def world_def answers_single_def)
  then have before: "\<forall>j<1. yields_nothing (get_feature_report ?e j (int j + 1))"
    by simp
  have "hid_requests (snd (read_battery_levels ?e paired_monitor)) =
           hid_requests paired_monitor @ report_ids \<and>
        (let b = battery_levels (snd (read_battery_levels ?e paired_monitor)) in
           left b = Some 42 \<and> right b = None)"
    using first_report_wins [OF o _ g(1) _ _ before] p by (simp add: Let_def)
  then show ?thesis
    using o g p n by (simp add: Let_def report_ids_def ex_defs)
qed

section \<open>The first two values of the deciding report\<close>

text \<open>
  C2, amended. Let a kept report (longer than two bytes) be the first in probe order
  with a potential battery value, and let \<open>li < ri\<close> be the first two positions among
  1 to 4 whose bytes lie in [0,100]. Then \<open>left\<close> is the byte at \<open>li\<close> and \<open>right\<close> the
  byte at \<open>ri\<close>. The report ID and the two offsets are written to the configuration and
  saved when the report ID differs from the cached one; when it is the cached one, the
  configuration and its file stay as they are.
\<close>

theorem first_two_values:
  assumes "device_opens e m"
    and "i < 8" and "get_feature_report e i (int i + 1) = Some report" and "length report > 2"
    and "\<forall>j<i. yields_nothing (get_feature_report e j (int j + 1))"
    and "1 \<le> li" and "li < ri" and "ri < min 5 (length report)"
    and "unat (report ! li) \<le> 100" and "unat (report ! ri) \<le> 100"
    and "\<forall>k. 1 \<le> k \<and> k < ri \<and> k \<noteq> li \<longrightarrow> 100 < unat (report ! k)"
    and "dict_get (config m) ''report_id'' = Inr cached"
  shows "let m' = snd (read_battery_levels e m); b = battery_levels m' in
     left b = Some (unat (report ! li)) \<and> right b = Some (unat (report ! ri)) \<and>
     (if py_eq_int cached (int i + 1) then config m' = config m \<and> config_file m' = config_file m
      else subscript (config m') ''report_id'' = Inr (JInt (int i + 1)) \<and>
           subscript (config m') ''left_battery_index'' = Inr (JInt (int li)) \<and>
           subscript (config m') ''right_battery_index'' = Inr (JInt (int ri)) \<and>
           config_file m' =
             (case config_write e of
                Written \<Rightarrow> Parsed (config m')
              | Refused \<Rightarrow> config_file m
              | Truncated \<Rightarrow> Unreadable))"
proof -
  let ?m1 = "m\<lparr>hid_requests := hid_requests m @ report_ids\<rparr>"
  let ?rid = "int i + 1"
  have "\<forall>k. 1 \<le> k \<and> k < ri \<and> k \<noteq> li \<longrightarrow> \<not> in_range report k"
    using assms(11) by (auto simp: in_range_def)
  then obtain further where pbv: "potential_battery_values report =
      (li, unat (report ! li)) # (ri, unat (report ! ri)) # further"
    using potential_battery_values_first_two [of li ri report] assms(6-10)
    by (auto simp: in_range_def)
  then have ne: "potential_battery_values report \<noteq> []" by simp
  have rd: "read_device e m = scan_reports e ?m1 [(?rid, report)]"
    using assms(1-4) ne assms(5) by (rule read_device_winner)
  then have rd': "read_device e m =
      (store_report_id e ?rid (JInt (int li)) (JInt (int ri)) ?m1,
       Some (unat (report ! li)), Some (unat (report ! ri)))"
    using pbv by simp
  obtain kvs where kvs: "config m = JDict kvs"
    using device_opens_dict [OF assms(1)] by blast
  have vals: "left (battery_levels (snd (read_battery_levels e m))) = Some (unat (report ! li))"
    "right (battery_levels (snd (read_battery_levels e m))) = Some (unat (report ! ri))"
    using rd' by (simp_all add: read_battery_levels_values)
  have cfg: "config (snd (read_battery_levels e m)) =
        config (store_report_id e ?rid (JInt (int li)) (JInt (int ri)) ?m1)"
    "config_file (snd (read_battery_levels e m)) =
        config_file (store_report_id e ?rid (JInt (int li)) (JInt (int ri)) ?m1)"
    using rd' by (simp_all add: read_battery_levels_frame)
  show ?thesis
  proof (cases "py_eq_int cached ?rid")
    case True
    then have "store_report_id e ?rid (JInt (int li)) (JInt (int ri)) ?m1 = ?m1"
      using assms(12) by (intro store_report_id_same [of _ cached]) simp_all
    then show ?thesis
      using True vals cfg by (simp add: Let_def)
  next
    case False
    have "store_report_id e ?rid (JInt (int li)) (JInt (int ri)) ?m1 =
       save_config e (?m1\<lparr>config := JDict (AList.update ''right_battery_index'' (JInt (int ri))
         (AList.update ''left_battery_index'' (JInt (int li))
           (AList.update ''report_id'' (JInt ?rid) kvs)))\<rparr>)"
      using assms(12) kvs False by (intro store_report_id_new [of _ _ cached]) simp_all
    then have "config (snd (read_battery_levels e m)) =
        JDict (AList.update ''right_battery_index'' (JInt (int ri))
         (AList.update ''left_battery_index'' (JInt (int li))
           (AList.update ''report_id'' (JInt ?rid) kvs)))"
      and "config_file (snd (read_battery_levels e m)) =
        (case config_write e of
           Written \<Rightarrow> Parsed (config (snd (read_battery_levels e m)))
         | Refused \<Rightarrow> config_file m
         | Truncated \<Rightarrow> Unreadable)"
      by (simp_all add: cfg save_config_file split: write_outcome.splits)
    then show ?thesis
      using False vals by (simp add: Let_def update_conv')
  qed
qed

theorem first_two_values_witness:
  "device_opens (world [corne] True answers_sparse) paired_monitor \<and>
   get_feature_report (world [corne] True answers_sparse) 0 1 = Some [1, 200, 75, 200, 60] \<and>
   100 < unat ([1, 200, 75, 200, 60 :: byte] ! 1) \<and> 100 < unat ([1, 200, 75, 200, 60 :: byte] ! 3) \<and>
   dict_get (config paired_monitor) ''report_id'' = Inr JNull \<and> \<not> py_eq_int JNull 1 \<and>
   left (battery_levels (snd (read_battery_levels (world [corne] True answers_sparse)
      paired_monitor))) = Some 75 \<and>
   right (battery_levels (snd (read_battery_levels (world [corne] True answers_sparse)
      paired_monitor))) = Some 60 \<and>
   subscript (config (snd (read_battery_levels (world [corne] True answers_sparse)
      paired_monitor))) ''report_id'' = Inr (JInt 1) \<and>
   subscript (config (snd (read_battery_levels (world [corne] True answers_sparse)
      paired_monitor))) ''left_battery_index'' = Inr (JInt 2) \<and>
   subscript (config (snd (read_battery_levels (world [corne] True answers_sparse)
      paired_monitor))) ''right_battery_index'' = Inr (JInt 4) \<and>
   config_file (snd (read_battery_levels (world [corne] True answers_sparse) paired_monitor)) =
     Parsed (config (snd (read_battery_levels (world [corne] True answers_sparse) paired_monitor)))"
proof -
  let ?e = "world [corne] True answers_sparse"
  let ?r = "[1, 200, 75, 200, 60] :: byte list"
  have o: "device_opens ?e paired_monitor" by (rule opens_paired)
  have g: "get_feature_report ?e 0 (int 0 + 1) = Some ?r"
    by (simp add: world_def answers_sparse_def)
  have others: "\<forall>k. 1 \<le> k \<and> k < 4 \<and> k \<noteq> 2 \<longrightarrow> 100 < unat (?r ! k)"
  proof (intro allI impI)
    fix k :: nat assume "1 \<le> k \<and> k < 4 \<and> k \<noteq> 2"
    then have "k = 1 \<or> k = 3" by arith
    then show "100 < unat (?r ! k)" by auto
  qed
  have c: "dict_get (config paired_monitor) ''report_id'' = Inr JNull" "\<not> py_eq_int JNull 1"
    "config_write ?e = Written"
    by (simp_all add: ex_defs py_eq_int_def)
  have "let m' = snd (read_battery_levels ?e paired_monitor); b = battery_levels m' in
     left b = Some (unat (?r ! 2)) \<and> right b = Some (unat (?r ! 4)) \<and>
     (if py_eq_int JNull (int 0 + 1) then config m' = config paired_monitor \<and>
         config_file m' = config_file paired_monitor
      else subscript (config m') ''report_id'' = Inr (JInt (int 0 + 1)) \<and>
           subscript (config m') ''left_battery_index'' = Inr (JInt (int 2)) \<and>
           subscript (config m') ''right_battery_index'' = Inr (JInt (int 4)) \<and>
           config_file m' =
             (case config_write ?e of
                Written \<Rightarrow> Parsed (config m')
              | Refused \<Rightarrow> config_file paired_monitor
              | Truncated \<Rightarrow> Unreadable))"
    using first_two_values [OF o _ g _ _ _ _ _ _ _ others c(1)] by simp
  then show ?thesis
    using o g c others unfolding Let_def by simp
qed

text \<open>
  C2 as stated fails: with report ID 1 already cached with the offsets 3 and 4, a report
  \<open>[0x01, 75, 60, 0, 0]\<close> gives left 75 and right 60 from the offsets 1 and 2, and the
  configuration still holds the offsets 3 and 4.
\<close>

theorem first_two_values_counterexample:
  "get_feature_report (world [corne] True answers_75_60) 0 1 = Some [1, 75, 60, 0, 0] \<and>
   potential_battery_values [1, 75, 60, 0, 0] = [(1, 75), (2, 60), (3, 0), (4, 0)] \<and>
   left (battery_levels (snd (read_battery_levels (world [corne] True answers_75_60)
      (learned_monitor 1 3 4)))) = Some 75 \<and>
   right (battery_levels (snd (read_battery_levels (world [corne] True answers_75_60)
      (learned_monitor 1 3 4)))) = Some 60 \<and>
   subscript (config (snd (read_battery_levels (world [corne] True answers_75_60)
      (learned_monitor 1 3 4)))) ''left_battery_index'' = Inr (JInt 3) \<and>
   subscript (config (snd (read_battery_levels (world [corne] True answers_75_60)
      (learned_monitor 1 3 4)))) ''right_battery_index'' = Inr (JInt 4)"
  by (simp add: ex_defs answers_75_60_def run_defs str_of_nat.simps)

section \<open>When the mapping is written\<close>

text \<open>
  C5. \<^verbatim>\<open>read_battery_levels\<close> changes the configuration or its file only when the scan
  is decided by a report whose ID differs from the cached \<open>report_id\<close>; when no answer
  gives the scan a potential battery value, the configuration and its file are left as
  they were; and no key other than \<open>report_id\<close>, \<open>left_battery_index\<close> and
  \<open>right_battery_index\<close> is ever changed by it.
\<close>

theorem mapping_written_only_on_new_winner:
  "(let m' = snd (read_battery_levels e m) in
     (config m' \<noteq> config m \<or> config_file m' \<noteq> config_file m \<longrightarrow>
        (\<exists>i report cached. i < 8 \<and> get_feature_report e i (int i + 1) = Some report \<and>
           length report > 2 \<and> potential_battery_values report \<noteq> [] \<and>
           (\<forall>j<i. yields_nothing (get_feature_report e j (int j + 1))) \<and>
           dict_get (config m) ''report_id'' = Inr cached \<and> \<not> py_eq_int cached (int i + 1))) \<and>
     ((\<forall>i<8. yields_nothing (get_feature_report e i (int i + 1))) \<longrightarrow>
        config m' = config m \<and> config_file m' = config_file m) \<and>
     (\<forall>key. key \<notin> {''report_id'', ''left_battery_index'', ''right_battery_index''} \<longrightarrow>
        subscript (config m') key = subscript (config m) key))"
proof -
  let ?m' = "snd (read_battery_levels e m)"
  have other: "\<forall>key. key \<notin> {''report_id'', ''left_battery_index'', ''right_battery_index''} \<longrightarrow>
      subscript (config ?m') key = subscript (config m) key"
    using read_device_other_keys [of _ e m] by (simp add: read_battery_levels_frame)
  show ?thesis
    unfolding Let_def
    using read_battery_levels_nothing [of e m] read_battery_levels_changed [of e m] other
    by blast
qed

theorem mapping_written_only_on_new_winner_witness:
  "config (snd (read_battery_levels (world [corne] True answers_75_60) paired_monitor))
     \<noteq> config paired_monitor \<and>
   (\<exists>i report cached. i < 8 \<and>
      get_feature_report (world [corne] True answers_75_60) i (int i + 1) = Some report \<and>
      potential_battery_values report \<noteq> [] \<and>
      dict_get (config paired_monitor) ''report_id'' = Inr cached \<and>
      \<not> py_eq_int cached (int i + 1)) \<and>
   (\<forall>i. yields_nothing (get_feature_report (world [corne] True answers_none) i (int i + 1))) \<and>
   config (snd (read_battery_levels (world [corne] True answers_none) (learned_monitor 1 1 2)))
     = config (learned_monitor 1 1 2) \<and>
   config_file (snd (read_battery_levels (world [corne] True answers_none) (learned_monitor 1 1 2)))
     = config_file (learned_monitor 1 1 2) \<and>
   ''vendor_id'' \<notin> {''report_id'', ''left_battery_index'', ''right_battery_index''} \<and>
   subscript (config (snd (read_battery_levels (world [corne] True answers_75_60) paired_monitor)))
     ''vendor_id'' = Inr (JInt 0x1D50)"
proof -
  let ?e = "world [corne] True answers_75_60"
  let ?q = "world [corne] True answers_none"
  have "subscript (config (snd (read_battery_levels ?e paired_monitor))) ''report_id''
      = Inr (JInt 1)"
    by (simp add: ex_defs answers_75_60_def run_defs str_of_nat.simps)
  moreover have "subscript (config paired_monitor) ''report_id'' = Inr JNull"
    by (simp add: ex_defs)
  ultimately have ch: "config (snd (read_battery_levels ?e paired_monitor)) \<noteq> config paired_monitor"
    by auto
  have n: "\<forall>i. yields_nothing (get_feature_report ?q i (int i + 1))"
    by (simp add: yields_nothing_def world_def answers_none_def)
  have k: "''vendor_id'' \<notin> {''report_id'', ''left_battery_index'', ''right_battery_index''}"
    "subscript (config paired_monitor) ''vendor_id'' = Inr (JInt 0x1D50)"
    by (simp_all add: ex_defs)
  note t1 = mapping_written_only_on_new_winner [of ?e paired_monitor, unfolded Let_def]
  note t2 = mapping_written_only_on_new_winner [of ?q "learned_monitor 1 1 2", unfolded Let_def]
  have "\<exists>i report cached. i < 8 \<and> get_feature_report ?e i (int i + 1) = Some report \<and>
      length report > 2 \<and> potential_battery_values report \<noteq> [] \<and>
      (\<forall>j<i. yields_nothing (get_feature_report ?e j (int j + 1))) \<and>
      dict_get (config paired_monitor) ''report_id'' = Inr cached \<and>
      \<not> py_eq_int cached (int i + 1)"
    by (rule t1 [THEN conjunct1, rule_format, OF disjI1 [OF ch]])
  then have a: "\<exists>i report cached. i < 8 \<and> get_feature_report ?e i (int i + 1) = Some report \<and>
      potential_battery_values report \<noteq> [] \<and>
      dict_get (config paired_monitor) ''report_id'' = Inr cached \<and>
      \<not> py_eq_int cached (int i + 1)"
    by (elim exE conjE) (intro exI conjI, assumption+)
  have b: "config (snd (read_battery_levels ?q (learned_monitor 1 1 2)))
        = config (learned_monitor 1 1 2) \<and>
      config_file (snd (read_battery_levels ?q (learned_monitor 1 1 2)))
        = config_file (learned_monitor 1 1 2)"
    using t2 [THEN conjunct2, THEN conjunct1, rule_format] n by simp
  have c: "subscript (config (snd (read_battery_levels ?e paired_monitor))) ''vendor_id''
      = Inr (JInt 0x1D50)"
    using t1 [THEN conjunct2, THEN conjunct2, rule_format, OF k(1)] k(2) by simp
  show ?thesis
    using ch a n b [THEN conjunct1] b [THEN conjunct2] k(1) c by (intro conjI) assumption+
qed

section \<open>The stored mapping\<close>

lemma winner_reading:
  assumes "device_opens e m"
    and "i < 8" and "get_feature_report e i (int i + 1) = Some report" and "length report > 2"
    and "potential_battery_values report \<noteq> []"
    and "\<forall>j<i. yields_nothing (get_feature_report e j (int j + 1))"
  shows "case potential_battery_values report of
          [] \<Rightarrow> False
        | [(idx, v)] \<Rightarrow>
            left (battery_levels (snd (read_battery_levels e m))) = Some v \<and>
            right (battery_levels (snd (read_battery_levels e m))) = None
        | (li, l) # (ri, r) # further \<Rightarrow>
            left (battery_levels (snd (read_battery_levels e m))) = Some l \<and>
            right (battery_levels (snd (read_battery_levels e m))) = Some r"
proof -
  let ?m1 = "m\<lparr>hid_requests := hid_requests m @ report_ids\<rparr>"
  have rd: "read_device e m = scan_reports e ?m1 [(int i + 1, report)]"
    using assms by (rule read_device_winner)
  show ?thesis
    using assms(5) by (auto simp: read_battery_levels_values rd split: list.splits)
qed

lemma stored_value_cases:
  assumes "subscript cfg key = Inr idx"
  shows "(idx = JNull \<longrightarrow> stored_value cfg key report = Inr None) \<and>
     (\<forall>i. as_int idx = Some i \<and> 0 \<le> i \<and> i < int (length report) \<longrightarrow>
        stored_value cfg key report =
          Inr (if unat (report ! nat i) \<le> 100 then Some (unat (report ! nat i)) else None)) \<and>
     (\<forall>i. as_int idx = Some i \<and> int (length report) \<le> i \<longrightarrow>
        stored_value cfg key report = Inr None) \<and>
     (\<forall>i. as_int idx = Some i \<and> i < 0 \<and> - int (length report) \<le> i \<longrightarrow>
        stored_value cfg key report =
          Inr (if unat (report ! nat (int (length report) + i)) \<le> 100
               then Some (unat (report ! nat (int (length report) + i))) else None)) \<and>
     (\<forall>i. as_int idx = Some i \<and> i < - int (length report) \<longrightarrow>
        stored_value cfg key report = Inl IndexError) \<and>
     (idx \<noteq> JNull \<and> as_int idx = None \<longrightarrow> stored_value cfg key report = Inl TypeError)"
  using assms by (auto simp: stored_value_def py_lt_int_def py_index_def)

lemma read_stored_result:
  assumes "subscript (config m) ''report_id'' = Inr rid" and "as_int rid = Some n"
  shows "hid_requests (fst (read_stored e m)) = hid_requests m @ [n] \<and>
     (case get_feature_report e 8 n of
        None \<Rightarrow> snd (read_stored e m) = (None, None)
      | Some report \<Rightarrow>
          (case stored_value (config m) ''left_battery_index'' report of
             Inl err \<Rightarrow> snd (read_stored e m) = (None, None)
           | Inr l \<Rightarrow>
               fst (snd (read_stored e m)) = l \<and>
               (case stored_value (config m) ''right_battery_index'' report of
                  Inl err \<Rightarrow> snd (snd (read_stored e m)) = None
                | Inr r \<Rightarrow> snd (snd (read_stored e m)) = r)))"
  using assms by (auto simp: read_stored_def Let_def split: option.splits sum.splits)

lemma subscript_absent:
  assumes "device_opens e m" and "subscript (config m) k = Inl err"
  shows "py_in k (config m) = Inr False"
proof -
  obtain kvs where c: "config m = JDict kvs"
    using device_opens_dict [OF assms(1)] by blast
  have "map_of kvs k = None"
    using assms(2) c by (simp split: option.splits)
  then show ?thesis
    using c by (simp add: map_of_eq_None_iff)
qed

lemma read_stored_no_id:
  assumes "subscript (config m) ''report_id'' = Inr rid" and "as_int rid = None"
  shows "read_stored e m = (m, None, None)"
  using assms by (simp add: read_stored_def)

text \<open>
  C1, amended. When the device opens, \<^verbatim>\<open>read_battery_levels\<close> always requests the eight
  probe report IDs first, and the reading it retains is the one it returns. If an answer
  longer than two bytes gives the scan a potential battery value, the reading is taken
  from the first such answer (its first value left, its second, if any, right) and no
  further request is made. Only if no answer does is the stored mapping used: with a
  \<open>report_id\<close> that is an integer the stored report is requested, as the ninth request,
  and each of the two stored indices gives its value on its own: the byte at the index
  when the index is set, below the length of the report and the byte is within [0,100],
  nothing when the index is \<^verbatim>\<open>None\<close>, not below the length, or the byte is out of range.
  So a mapping with a single index gives a single value. An index that raises ends the
  fallback: the left one leaves both values absent, the right one keeps the left value.
  Without a \<open>report_id\<close> entry, or with one that is no integer, both values are absent.
\<close>

theorem stored_mapping_is_fallback:
  assumes "device_opens e m"
  shows "let m' = snd (read_battery_levels e m); b = battery_levels m' in
    (\<exists>rest. hid_requests m' = hid_requests m @ report_ids @ rest) \<and>
    (log_write_ok e \<longrightarrow> fst (read_battery_levels e m) = Inr b) \<and>
    (\<forall>i report. i < 8 \<and> get_feature_report e i (int i + 1) = Some report \<and>
        length report > 2 \<and> potential_battery_values report \<noteq> [] \<and>
        (\<forall>j<i. yields_nothing (get_feature_report e j (int j + 1))) \<longrightarrow>
          hid_requests m' = hid_requests m @ report_ids \<and>
          (case potential_battery_values report of
             [] \<Rightarrow> False
           | [(idx, v)] \<Rightarrow> left b = Some v \<and> right b = None
           | (li, l) # (ri, r) # further \<Rightarrow> left b = Some l \<and> right b = Some r)) \<and>
    (\<forall>rid. (\<forall>i<8. yields_nothing (get_feature_report e i (int i + 1))) \<and>
        subscript (config m) ''report_id'' = Inr rid \<longrightarrow>
          (case as_int rid of
             None \<Rightarrow>
               hid_requests m' = hid_requests m @ report_ids \<and> left b = None \<and> right b = None
           | Some n \<Rightarrow>
               hid_requests m' = hid_requests m @ report_ids @ [n] \<and>
               (case get_feature_report e 8 n of
                  None \<Rightarrow> left b = None \<and> right b = None
                | Some report \<Rightarrow>
                    (case stored_value (config m) ''left_battery_index'' report of
                       Inl err \<Rightarrow> left b = None \<and> right b = None
                     | Inr l \<Rightarrow>
                         left b = l \<and>
                         (case stored_value (config m) ''right_battery_index'' report of
                            Inl err \<Rightarrow> right b = None
                          | Inr r \<Rightarrow> right b = r))))) \<and>
    (\<forall>err. (\<forall>i<8. yields_nothing (get_feature_report e i (int i + 1))) \<and>
        subscript (config m) ''report_id'' = Inl err \<longrightarrow>
          hid_requests m' = hid_requests m @ report_ids \<and> left b = None \<and> right b = None) \<and>
    (\<forall>key idx report. subscript (config m) key = Inr idx \<longrightarrow>
       (idx = JNull \<longrightarrow> stored_value (config m) key report = Inr None) \<and>
       (\<forall>i. as_int idx = Some i \<and> 0 \<le> i \<and> i < int (length report) \<longrightarrow>
          stored_value (config m) key report =
            Inr (if unat (report ! nat i) \<le> 100 then Some (unat (report ! nat i)) else None)) \<and>
       (\<forall>i. as_int idx = Some i \<and> int (length report) \<le> i \<longrightarrow>
          stored_value (config m) key report = Inr None) \<and>
       (\<forall>i. as_int idx = Some i \<and> i < 0 \<and> - int (length report) \<le> i \<longrightarrow>
          stored_value (config m) key report =
            Inr (if unat (report ! nat (int (length report) + i)) \<le> 100
                 then Some (unat (report ! nat (int (length report) + i))) else None)) \<and>
       (\<forall>i. as_int idx = Some i \<and> i < - int (length report) \<longrightarrow>
          stored_value (config m) key report = Inl IndexError) \<and>
       (idx \<noteq> JNull \<and> as_int idx = None \<longrightarrow>
          stored_value (config m) key report = Inl TypeError))"
proof -
  let ?m' = "snd (read_battery_levels e m)"
  let ?b = "battery_levels ?m'"
  let ?m1 = "m\<lparr>hid_requests := hid_requests m @ report_ids\<rparr>"
  have a: "\<exists>rest. hid_requests ?m' = hid_requests m @ report_ids @ rest"
    using assms by (rule read_battery_levels_requests)
  have d: "log_write_ok e \<longrightarrow> fst (read_battery_levels e m) = Inr ?b"
    using read_battery_levels_logged(3) [of e m] by simp
  have w: "hid_requests ?m' = hid_requests m @ report_ids \<and>
          (case potential_battery_values report of
             [] \<Rightarrow> False
           | [(idx, v)] \<Rightarrow> left ?b = Some v \<and> right ?b = None
           | (li, l) # (ri, r) # further \<Rightarrow> left ?b = Some l \<and> right ?b = Some r)"
    if h: "i < 8 \<and> get_feature_report e i (int i + 1) = Some report \<and>
        length report > 2 \<and> potential_battery_values report \<noteq> [] \<and>
        (\<forall>j<i. yields_nothing (get_feature_report e j (int j + 1)))" for i report
    using winner_requests [OF assms, of i report] winner_reading [OF assms, of i report] h
    by blast
  have f: "case as_int rid of
             None \<Rightarrow>
               hid_requests ?m' = hid_requests m @ report_ids \<and> left ?b = None \<and> right ?b = None
           | Some n \<Rightarrow>
               hid_requests ?m' = hid_requests m @ report_ids @ [n] \<and>
               (case get_feature_report e 8 n of
                  None \<Rightarrow> left ?b = None \<and> right ?b = None
                | Some report \<Rightarrow>
                    (case stored_value (config m) ''left_battery_index'' report of
                       Inl err \<Rightarrow> left ?b = None \<and> right ?b = None
                     | Inr l \<Rightarrow>
                         left ?b = l \<and>
                         (case stored_value (config m) ''right_battery_index'' report of
                            Inl err \<Rightarrow> right ?b = None
                          | Inr r \<Rightarrow> right ?b = r)))"
    if n: "\<forall>i<8. yields_nothing (get_feature_report e i (int i + 1))"
      and r: "subscript (config m) ''report_id'' = Inr rid" for rid
  proof -
    have rd: "read_device e m = read_stored e ?m1"
      using read_device_nothing [OF assms n] subscript_py_in [OF r] by (simp add: Let_def)
    have r1: "subscript (config ?m1) ''report_id'' = Inr rid" using r by simp
    show ?thesis
    proof (cases "as_int rid")
      case None
      then show ?thesis
        using rd read_stored_no_id [OF r1 None, of e]
        by (simp add: read_battery_levels_values read_battery_levels_frame)
    next
      case (Some n)
      show ?thesis
        using rd read_stored_result [OF r1 Some, of e] Some
        by (auto simp: read_battery_levels_values read_battery_levels_frame
            split: option.splits sum.splits)
    qed
  qed
  have g: "hid_requests ?m' = hid_requests m @ report_ids \<and> left ?b = None \<and> right ?b = None"
    if n: "\<forall>i<8. yields_nothing (get_feature_report e i (int i + 1))"
      and r: "subscript (config m) ''report_id'' = Inl err" for err
  proof -
    have "read_device e m = (?m1, None, None)"
      using read_device_nothing [OF assms n] subscript_absent [OF assms r] by (simp add: Let_def)
    then show ?thesis
      by (simp add: read_battery_levels_values read_battery_levels_frame)
  qed
  have s: "\<forall>key idx report. subscript (config m) key = Inr idx \<longrightarrow>
       (idx = JNull \<longrightarrow> stored_value (config m) key report = Inr None) \<and>
       (\<forall>i. as_int idx = Some i \<and> 0 \<le> i \<and> i < int (length report) \<longrightarrow>
          stored_value (config m) key report =
            Inr (if unat (report ! nat i) \<le> 100 then Some (unat (report ! nat i)) else None)) \<and>
       (\<forall>i. as_int idx = Some i \<and> int (length report) \<le> i \<longrightarrow>
          stored_value (config m) key report = Inr None) \<and>
       (\<forall>i. as_int idx = Some i \<and> i < 0 \<and> - int (length report) \<le> i \<longrightarrow>
          stored_value (config m) key report =
            Inr (if unat (report ! nat (int (length report) + i)) \<le> 100
                 then Some (unat (report ! nat (int (length report) + i))) else None)) \<and>
       (\<forall>i. as_int idx = Some i \<and> i < - int (length report) \<longrightarrow>
          stored_value (config m) key report = Inl IndexError) \<and>
       (idx \<noteq> JNull \<and> as_int idx = None \<longrightarrow>
          stored_value (config m) key report = Inl TypeError)"
    using stored_value_cases by blast
  show ?thesis
    unfolding Let_def using a d w f g s by blast
qed

theorem stored_mapping_is_fallback_witness:
  "device_opens (world [corne] True answers_far) single_monitor \<and>
   (\<forall>i. yields_nothing (get_feature_report (world [corne] True answers_far) i (int i + 1))) \<and>
   subscript (config single_monitor) ''report_id'' = Inr (JInt 1) \<and>
   subscript (config single_monitor) ''left_battery_index'' = Inr (JInt 5) \<and>
   subscript (config single_monitor) ''right_battery_index'' = Inr JNull \<and>
   get_feature_report (world [corne] True answers_far) 8 1 = Some [1, 200, 200, 200, 200, 80, 90] \<and>
   fst (read_battery_levels (world [corne] True answers_far) single_monitor) =
     Inr \<lparr>left = Some 80, right = None, timestamp = Some ''2025-01-01 12:00:00''\<rparr> \<and>
   hid_requests (snd (read_battery_levels (world [corne] True answers_far) single_monitor)) =
     [1, 2, 3, 4, 5, 6, 7, 8, 1] \<and>
   device_opens (world [corne] True answers_far) (learned_monitor 1 5 6) \<and>
   left (battery_levels (snd (read_battery_levels (world [corne] True answers_far)
      (learned_monitor 1 5 6)))) = Some 80 \<and>
   right (battery_levels (snd (read_battery_levels (world [corne] True answers_far)
      (learned_monitor 1 5 6)))) = Some 90 \<and>
   device_opens (world [corne] True answers_75_60) (learned_monitor 2 1 2) \<and>
   get_feature_report (world [corne] True answers_75_60) 0 1 = Some [1, 75, 60, 0, 0] \<and>
   left (battery_levels (snd (read_battery_levels (world [corne] True answers_75_60)
      (learned_monitor 2 1 2)))) = Some 75 \<and>
   right (battery_levels (snd (read_battery_levels (world [corne] True answers_75_60)
      (learned_monitor 2 1 2)))) = Some 60 \<and>
   hid_requests (snd (read_battery_levels (world [corne] True answers_75_60)
      (learned_monitor 2 1 2))) = [1, 2, 3, 4, 5, 6, 7, 8]"
proof -
  let ?e = "world [corne] True answers_far"
  let ?w = "world [corne] True answers_75_60"
  let ?s = "single_monitor"
  let ?m = "learned_monitor 1 5 6"
  let ?c = "learned_monitor 2 1 2"
  let ?r = "[1, 200, 200, 200, 200, 80, 90] :: byte list"
  let ?bs = "battery_levels (snd (read_battery_levels ?e ?s))"
  let ?bm = "battery_levels (snd (read_battery_levels ?e ?m))"
  let ?bc = "battery_levels (snd (read_battery_levels ?w ?c))"
  have os: "device_opens ?e ?s" by (simp add: device_opens_def ex_defs single_monitor_def)
  have om: "device_opens ?e ?m" and oc: "device_opens ?w ?c" by (rule opens_paired)+
  have n: "\<forall>i. yields_nothing (get_feature_report ?e i (int i + 1))"
    by (simp add: yields_nothing_def world_def answers_far_def potential_battery_values_def)
  then have n8: "\<forall>i<8. yields_nothing (get_feature_report ?e i (int i + 1))" by simp
  have hs: "subscript (config ?s) ''report_id'' = Inr (JInt 1)"
    "subscript (config ?s) ''left_battery_index'' = Inr (JInt 5)"
    "subscript (config ?s) ''right_battery_index'' = Inr JNull"
    "hid_requests ?s = []" "log_write_ok ?e" "now ?e = ''2025-01-01 12:00:00''"
    by (simp_all add: ex_defs single_monitor_def)
  have hm: "subscript (config ?m) ''report_id'' = Inr (JInt 1)"
    "subscript (config ?m) ''left_battery_index'' = Inr (JInt 5)"
    "subscript (config ?m) ''right_battery_index'' = Inr (JInt 6)"
    by (simp_all add: ex_defs)
  have g: "get_feature_report ?e 8 1 = Some ?r" "unat (?r ! nat 5) = 80" "unat (?r ! nat 6) = 90"
    by (simp_all add: world_def answers_far_def)
  have gw: "get_feature_report ?w 0 (int 0 + 1) = Some [1, 75, 60, 0, 0]" "hid_requests ?c = []"
    by (simp_all add: ex_defs answers_75_60_def)
  note ts = stored_mapping_is_fallback [OF os, unfolded Let_def]
  note tm = stored_mapping_is_fallback [OF om, unfolded Let_def]
  note tc = stored_mapping_is_fallback [OF oc, unfolded Let_def]
  have svl: "stored_value (config ?s) ''left_battery_index'' ?r = Inr (Some 80)"
    using ts [THEN conjunct2, THEN conjunct2, THEN conjunct2, THEN conjunct2, THEN conjunct2,
        rule_format, OF hs(2), THEN conjunct2, THEN conjunct1, rule_format, of 5 ?r] g by simp
  have svr: "stored_value (config ?s) ''right_battery_index'' ?r = Inr None"
    using ts [THEN conjunct2, THEN conjunct2, THEN conjunct2, THEN conjunct2, THEN conjunct2,
        rule_format, OF hs(3), THEN conjunct1, rule_format, of ?r] by simp
  have fs: "hid_requests (snd (read_battery_levels ?e ?s)) = hid_requests ?s @ report_ids @ [1] \<and>
      left ?bs = Some 80 \<and> right ?bs = None"
    using ts [THEN conjunct2, THEN conjunct2, THEN conjunct2, THEN conjunct1, rule_format,
        OF conjI [OF n8 hs(1)]] g(1) svl svr by simp
  have rs: "fst (read_battery_levels ?e ?s) = Inr ?bs"
    using ts [THEN conjunct2, THEN conjunct1] hs(5) by simp
  have tss: "timestamp ?bs = Some (now ?e)"
    using read_battery_levels_logged(2) [OF hs(5)] .
  have bs: "?bs = \<lparr>left = Some 80, right = None, timestamp = Some ''2025-01-01 12:00:00''\<rparr>"
    using fs tss hs(6) by (cases ?bs) simp
  have svl': "stored_value (config ?m) ''left_battery_index'' ?r = Inr (Some 80)"
    using tm [THEN conjunct2, THEN conjunct2, THEN conjunct2, THEN conjunct2, THEN conjunct2,
        rule_format, OF hm(2), THEN conjunct2, THEN conjunct1, rule_format, of 5 ?r] g by simp
  have svr': "stored_value (config ?m) ''right_battery_index'' ?r = Inr (Some 90)"
    using tm [THEN conjunct2, THEN conjunct2, THEN conjunct2, THEN conjunct2, THEN conjunct2,
        rule_format, OF hm(3), THEN conjunct2, THEN conjunct1, rule_format, of 6 ?r] g by simp
  have fm: "left ?bm = Some 80 \<and> right ?bm = Some 90"
    using tm [THEN conjunct2, THEN conjunct2, THEN conjunct2, THEN conjunct1, rule_format,
        OF conjI [OF n8 hm(1)]] g(1) svl' svr' by simp
  have fc: "hid_requests (snd (read_battery_levels ?w ?c)) = hid_requests ?c @ report_ids \<and>
      left ?bc = Some 75 \<and> right ?bc = Some 60"
    using tc [THEN conjunct2, THEN conjunct2, THEN conjunct1, rule_format,
        of 0 "[1, 75, 60, 0, 0]"] gw(1)
    by (simp add: potential_battery_values_75_60)
  show ?thesis
    using os n hs(1-4) g(1) rs bs fs om fm oc gw fc
    by (simp add: report_ids_def)
qed

text \<open>
  C1 as stated fails: with report ID 2 cached with the offsets 1 and 2, and a keyboard
  whose report 2 holds 80 and 90 there, the reading is 10 and 20, taken from report 1,
  after requests for all eight report IDs.
\<close>

theorem stored_mapping_counterexample:
  "subscript (config (learned_monitor 2 1 2)) ''report_id'' = Inr (JInt 2) \<and>
   (\<forall>k. get_feature_report (world [corne] True answers_two_reports) k 2
           = Some [2, 80, 90, 200, 200]) \<and>
   stored_value (config (learned_monitor 2 1 2)) ''left_battery_index'' [2, 80, 90, 200, 200]
     = Inr (Some 80) \<and>
   stored_value (config (learned_monitor 2 1 2)) ''right_battery_index'' [2, 80, 90, 200, 200]
     = Inr (Some 90) \<and>
   fst (read_battery_levels (world [corne] True answers_two_reports) (learned_monitor 2 1 2)) =
     Inr \<lparr>left = Some 10, right = Some 20, timestamp = Some ''2025-01-01 12:00:00''\<rparr> \<and>
   hid_requests (snd (read_battery_levels (world [corne] True answers_two_reports)
      (learned_monitor 2 1 2))) = [1, 2, 3, 4, 5, 6, 7, 8]"
  by (simp add: ex_defs answers_two_reports_def run_defs str_of_nat.simps)

section \<open>Critical notifications\<close>

lemma is_critical_False_iff:
  "is_critical cfg level = Inr False \<longleftrightarrow>
     level = None \<or> (\<exists>n c t. level = Some n \<and> subscript cfg ''critical_battery_threshold'' = Inr c \<and>
        as_int c = Some t \<and> t < int n)"
  by (auto simp: is_critical_def py_int_le_def split: option.splits sum.splits)

lemma is_critical_True_iff:
  "is_critical cfg level = Inr True \<longleftrightarrow>
     (\<exists>n c t. level = Some n \<and> subscript cfg ''critical_battery_threshold'' = Inr c \<and>
        as_int c = Some t \<and> int n \<le> t)"
  by (auto simp: is_critical_def py_int_le_def split: option.splits sum.splits)

lemma update_tray_events:
  "\<exists>evs. ui_events (snd (update_tray m)) = ui_events m @ evs \<and>
      filter is_notification evs =
        (if (\<exists>err. generate_tray_icon m = Inl err) then []
         else if is_critical (config m) (left (battery_levels m)) = Inr True
           then [critical_notification ''Left'' (left (battery_levels m))]
         else if is_critical (config m) (left (battery_levels m)) = Inr False \<and>
                 is_critical (config m) (right (battery_levels m)) = Inr True
           then [critical_notification ''Right'' (right (battery_levels m))]
         else [])"
  by (auto simp: update_tray_def Let_def emit_def critical_notification_def
      split: sum.splits option.splits bool.splits prod.splits)

lemma get_color_critical:
  "is_critical cfg level = Inr True \<Longrightarrow> get_color cfg level = Inr Red"
  by (auto simp: is_critical_def get_color_def split: option.splits sum.splits)

lemma left_is_not_right:
  "critical_notification ''Right'' a \<noteq> critical_notification ''Left'' b"
  by (simp add: critical_notification_def)

text \<open>
  C10. In every call of \<^verbatim>\<open>update_tray\<close> at most one notification is dispatched. A
  critical notification for the right half is dispatched only when the left value is
  absent or above the critical threshold; when both halves are at or below the
  threshold, the only notification is the one for the left half.
\<close>

theorem one_critical_notification:
  "let b = battery_levels m;
       evs = drop (length (ui_events m)) (ui_events (snd (update_tray m)))
   in ui_events (snd (update_tray m)) = ui_events m @ evs \<and>
      length (filter is_notification evs) \<le> 1 \<and>
      (\<forall>level. critical_notification ''Right'' level \<in> set evs \<longrightarrow>
         left b = None \<or>
         (\<exists>n c t. left b = Some n \<and>
            subscript (config m) ''critical_battery_threshold'' = Inr c \<and>
            as_int c = Some t \<and> t < int n)) \<and>
      (\<forall>l r c t. left b = Some l \<and> right b = Some r \<and>
         subscript (config m) ''critical_battery_threshold'' = Inr c \<and> as_int c = Some t \<and>
         int l \<le> t \<and> int r \<le> t \<longrightarrow>
           filter is_notification evs = [critical_notification ''Left'' (Some l)])"
proof -
  let ?b = "battery_levels m"
  let ?evs = "drop (length (ui_events m)) (ui_events (snd (update_tray m)))"
  obtain evs where evs: "ui_events (snd (update_tray m)) = ui_events m @ evs"
    and flt: "filter is_notification evs =
        (if (\<exists>err. generate_tray_icon m = Inl err) then []
         else if is_critical (config m) (left ?b) = Inr True
           then [critical_notification ''Left'' (left ?b)]
         else if is_critical (config m) (left ?b) = Inr False \<and>
                 is_critical (config m) (right ?b) = Inr True
           then [critical_notification ''Right'' (right ?b)]
         else [])"
    using update_tray_events [of m] by blast
  have d: "?evs = evs" using evs by simp
  have one: "length (filter is_notification evs) \<le> 1"
    using flt by simp
  have right: "left ?b = None \<or>
         (\<exists>n c t. left ?b = Some n \<and>
            subscript (config m) ''critical_battery_threshold'' = Inr c \<and>
            as_int c = Some t \<and> t < int n)"
    if r: "critical_notification ''Right'' level \<in> set evs" for level
  proof -
    have "is_notification (critical_notification ''Right'' level)"
      by (simp add: critical_notification_def)
    then have "critical_notification ''Right'' level \<in> set (filter is_notification evs)"
      using r by simp
    then have "is_critical (config m) (left ?b) = Inr False"
      using flt left_is_not_right by (auto split: if_splits)
    then show ?thesis by (simp add: is_critical_False_iff)
  qed
  have both: "filter is_notification evs = [critical_notification ''Left'' (Some l)]"
    if h: "left ?b = Some l \<and> right ?b = Some r \<and>
         subscript (config m) ''critical_battery_threshold'' = Inr c \<and> as_int c = Some t \<and>
         int l \<le> t \<and> int r \<le> t" for l r c t
  proof -
    have cl: "is_critical (config m) (left ?b) = Inr True"
      and cr: "is_critical (config m) (right ?b) = Inr True"
      using h by (auto simp: is_critical_True_iff)
    have "\<nexists>err. generate_tray_icon m = Inl err"
      using get_color_critical [OF cl] get_color_critical [OF cr]
      by (auto simp: generate_tray_icon_def)
    then show ?thesis using flt cl h by simp
  qed
  show ?thesis
    unfolding Let_def d using evs one right both by blast
qed

theorem one_critical_notification_witness:
  "left (battery_levels low_monitor) = Some 5 \<and> right (battery_levels low_monitor) = Some 3 \<and>
   subscript (config low_monitor) ''critical_battery_threshold'' = Inr (JInt 10) \<and>
   filter is_notification (drop (length (ui_events low_monitor))
       (ui_events (snd (update_tray low_monitor)))) =
     [ShowNotification ''Critical Battery Warning''
        ''Left keyboard half battery is critically low (5%)'' True]"
proof -
  have h: "left (battery_levels low_monitor) = Some 5" "right (battery_levels low_monitor) = Some 3"
    "subscript (config low_monitor) ''critical_battery_threshold'' = Inr (JInt 10)"
    by (simp_all add: low_monitor_def paired_monitor_def fresh_monitor_def paired_config_def
        DEFAULT_CONFIG_def)
  have "filter is_notification (drop (length (ui_events low_monitor))
       (ui_events (snd (update_tray low_monitor)))) = [critical_notification ''Left'' (Some 5)]"
    using one_critical_notification [of low_monitor, unfolded Let_def,
        THEN conjunct2, THEN conjunct2, THEN conjunct2, rule_format, of 5 3 "JInt 10" 10] h
    by simp
  then show ?thesis
    using h by (simp add: critical_notification_def level_str_def str_of_nat.simps)
qed

section \<open>Locating the keyboard\<close>

lemma find_filter:
  "List.find P xs = (case filter P xs of [] \<Rightarrow> None | x # ys \<Rightarrow> Some x)"
  by (induction xs) auto

lemma configured_ids_dict: "configured_ids cfg = Inr ids \<Longrightarrow> \<exists>kvs. cfg = JDict kvs"
  by (cases cfg) (auto simp: configured_ids_def)

lemma select_device_dict:
  "config m = JDict kvs \<Longrightarrow>
     select_device e d m =
       (Inr True, save_config e (m\<lparr>config := JDict
          (AList.update ''device_name'' (JStr (manufacturer_string d @ '' '' @ product_string d))
            (AList.update ''product_id'' (JInt (product_id d))
              (AList.update ''vendor_id'' (JInt (vendor_id d)) kvs)))\<rparr>))"
  by (simp add: select_device_def device_name_of_def)

text \<open>
  C6, amended. When no device IDs are configured, or no enumerated device has the
  configured IDs, \<^verbatim>\<open>find_keyboard\<close> selects the first device in enumeration order whose
  product string contains "keyboard" or "zmk", or whose manufacturer string contains
  "zmk", case-insensitively. It then writes that device's vendor and product IDs and the
  name "manufacturer product" into the configuration and saves it at once. If no device
  passes the filter it returns \<^verbatim>\<open>False\<close> and changes nothing.
\<close>

theorem find_keyboard_heuristic:
  assumes "hid_enumerate e = Some devices"
    and "configured_ids (config m) = Inr ids"
    and "\<forall>vid pid. ids = Some (vid, pid) \<longrightarrow> \<not> list_ex (is_configured_device vid pid) devices"
  shows "case List.find is_zmk_candidate devices of
           None \<Rightarrow> find_keyboard e m = (Inr False, m)
         | Some d \<Rightarrow>
             (\<exists>kvs. config m = JDict kvs \<and>
                find_keyboard e m =
                  (Inr True, save_config e (m\<lparr>config := JDict
                     (AList.update ''device_name''
                        (JStr (manufacturer_string d @ '' '' @ product_string d))
                       (AList.update ''product_id'' (JInt (product_id d))
                         (AList.update ''vendor_id'' (JInt (vendor_id d)) kvs)))\<rparr>)))"
proof -
  obtain kvs where kvs: "config m = JDict kvs"
    using configured_ids_dict [OF assms(2)] by blast
  have no: "\<not> (case ids of None \<Rightarrow> False
      | Some (vid, pid) \<Rightarrow> list_ex (is_configured_device vid pid) devices)"
    using assms(3) by (auto split: option.splits)
  have fk: "find_keyboard e m =
      (case filter is_zmk_candidate devices of
         [] \<Rightarrow> (Inr False, m)
       | device # others \<Rightarrow> select_device e device m)"
    using assms(1,2) no by (simp add: find_keyboard_def)
  show ?thesis
    using fk kvs select_device_dict [OF kvs]
    by (auto simp: find_filter split: list.splits)
qed

theorem find_keyboard_heuristic_witness:
  "hid_enumerate (world [keyboard_works, corne] True answers_none) = Some [keyboard_works, corne] \<and>
   configured_ids (config fresh_monitor) = Inr None \<and>
   List.find is_zmk_candidate [keyboard_works, corne] = Some corne \<and>
   fst (find_keyboard (world [keyboard_works, corne] True answers_none) fresh_monitor) = Inr True \<and>
   config (snd (find_keyboard (world [keyboard_works, corne] True answers_none) fresh_monitor)) =
     JDict paired_config \<and>
   config_file (snd (find_keyboard (world [keyboard_works, corne] True answers_none) fresh_monitor)) =
     Parsed (JDict paired_config)"
proof -
  let ?e = "world [keyboard_works, corne] True answers_none"
  have h: "hid_enumerate ?e = Some [keyboard_works, corne]"
    "configured_ids (config fresh_monitor) = Inr None"
    by (simp_all add: world_def fresh_monitor_def DEFAULT_CONFIG_def configured_ids_def)
  have f: "List.find is_zmk_candidate [keyboard_works, corne] = Some corne"
    by (simp add: keyboard_works_def corne_def is_zmk_candidate_def lower_def lower_char_def)
  have "\<exists>kvs. config fresh_monitor = JDict kvs \<and>
      find_keyboard ?e fresh_monitor =
        (Inr True, save_config ?e (fresh_monitor\<lparr>config := JDict
           (AList.update ''device_name''
              (JStr (manufacturer_string corne @ '' '' @ product_string corne))
             (AList.update ''product_id'' (JInt (product_id corne))
               (AList.update ''vendor_id'' (JInt (vendor_id corne)) kvs)))\<rparr>))"
    using find_keyboard_heuristic [OF h] f by simp
  then show ?thesis
    using h f
    by (auto simp: save_config_def world_def fresh_monitor_def paired_config_def corne_def)
qed

text \<open>
  C6 as stated fails: a device whose manufacturer string contains "keyboard", but whose
  product string contains neither "keyboard" nor "zmk", is not selected.
\<close>

theorem find_keyboard_counterexample:
  "str_contains ''keyboard'' (lower (manufacturer_string keyboard_works)) \<and>
   hid_enumerate (world [keyboard_works] True answers_none) = Some [keyboard_works] \<and>
   configured_ids (config fresh_monitor) = Inr None \<and>
   find_keyboard (world [keyboard_works] True answers_none) fresh_monitor =
     (Inr False, fresh_monitor)"
  by (simp add: keyboard_works_def world_def fresh_monitor_def DEFAULT_CONFIG_def
      find_keyboard_def configured_ids_def is_zmk_candidate_def lower_def lower_char_def)

section \<open>A cycle of the monitoring loop\<close>

lemma select_device_frame:
  "select_device e d m = (res, m') \<Longrightarrow>
     battery_levels m' = battery_levels m \<and> log_file m' = log_file m \<and>
     ui_events m' = ui_events m \<and> icon m' = icon m \<and> gui_available m' = gui_available m \<and>
     hid_requests m' = hid_requests m \<and> (res \<noteq> Inr True \<longrightarrow> m' = m)"
  by (cases "config m")
     (auto simp: select_device_def split: sum.splits if_splits)

lemma find_keyboard_frame:
  "find_keyboard e m = (res, m') \<Longrightarrow>
     battery_levels m' = battery_levels m \<and> log_file m' = log_file m \<and>
     ui_events m' = ui_events m \<and> icon m' = icon m \<and> gui_available m' = gui_available m \<and>
     hid_requests m' = hid_requests m \<and> (res \<noteq> Inr True \<longrightarrow> m' = m)"
  unfolding find_keyboard_def
  by (auto split: option.splits sum.splits if_splits list.splits dest!: select_device_frame)

lemma update_tray_frame:
  "battery_levels (snd (update_tray m)) = battery_levels m"
  "log_file (snd (update_tray m)) = log_file m"
  "config (snd (update_tray m)) = config m"
  "config_file (snd (update_tray m)) = config_file m"
  by (auto simp: update_tray_def Let_def emit_def
      split: sum.splits option.splits bool.splits prod.splits)

lemma update_tray_unknown:
  "left (battery_levels m) = None \<Longrightarrow> right (battery_levels m) = None \<Longrightarrow>
     ui_events (snd (update_tray m)) =
       ui_events m @ (if gui_available m then [UpdateIcon Gray Gray] else []) @
       [UpdateTitle ''ZMK Battery Monitor - Left: Unknown, Right: Unknown'']"
  by (simp add: update_tray_def generate_tray_icon_def get_color_def is_critical_def
      level_str_def emit_def Let_def)

lemma read_battery_levels_ui:
  "ui_events (snd (read_battery_levels e m)) = ui_events m"
  "icon (snd (read_battery_levels e m)) = icon m"
  "gui_available (snd (read_battery_levels e m)) = gui_available m"
  by (auto simp: read_battery_levels_def log_battery_levels_def Let_def
      split: prod.splits dest!: read_device_frame)

lemma monitoring_cycle_snd: "monitoring_cycle e m = snd (cycle_body e m)"
  by (simp add: monitoring_cycle_def try_cycle_def split: prod.splits option.splits)

lemma try_cycle_caught: "fst (try_cycle e m) = None"
  by (simp add: try_cycle_def split: prod.splits option.splits)

lemma monitoring_cycle_found:
  assumes "find_keyboard e m = (Inr True, m1)"
  shows "monitoring_cycle e m =
     (let m2 = snd (read_battery_levels e m1) in
      case fst (read_battery_levels e m1) of
        Inl err \<Rightarrow> m2
      | Inr b \<Rightarrow> if icon m2 then snd (update_tray m2) else m2)"
  using assms
  by (auto simp: monitoring_cycle_snd cycle_body_def Let_def split: prod.splits sum.splits)

lemmas cycle_defs = monitoring_cycle_def try_cycle_def cycle_body_def find_keyboard_def configured_ids_def
  is_configured_device_def update_tray_def generate_tray_icon_def get_color_def
  is_critical_def level_str_def emit_def tray_monitor_def

lemma read_battery_levels_timestamp:
  "timestamp (battery_levels (snd (read_battery_levels e m))) = Some (now e)"
  by (auto simp: read_battery_levels_def log_battery_levels_def Let_def split: prod.splits)

lemma read_battery_levels_unlogged:
  assumes "\<not> log_write_ok e"
  shows "fst (read_battery_levels e m) = Inl IOError"
    and "log_file (snd (read_battery_levels e m)) = log_file m"
  using assms
  by (auto simp: read_battery_levels_def log_battery_levels_def Let_def
      split: prod.splits dest!: read_device_frame)

text \<open>
  C4, amended. No exception leaves the \<^verbatim>\<open>try\<close> statement of a cycle: its handler catches
  it. If \<^verbatim>\<open>find_keyboard\<close> finds no device or raises, the cycle changes nothing: the
  retained reading stays, no row is appended and no observer is called. If the device is
  found, the cycle always replaces the retained reading: its timestamp is the read time
  and its values are those of the resolver, both absent when the device cannot be
  opened. When the write of the row succeeds, one row for that reading is appended (two
  empty fields when both values are absent) and \<^verbatim>\<open>update_tray\<close> is called exactly when
  the tray is active, also after a failed resolution. When the write of the row fails,
  no row is appended and the tray is not updated.
\<close>

theorem cycle_on_failure:
  "fst (try_cycle e m) = None \<and>
   (fst (find_keyboard e m) \<noteq> Inr True \<longrightarrow> monitoring_cycle e m = m) \<and>
   (fst (find_keyboard e m) = Inr True \<longrightarrow>
      (let m1 = snd (find_keyboard e m); m2 = snd (read_battery_levels e m1);
           m' = monitoring_cycle e m; b = battery_levels m'
       in timestamp b = Some (now e) \<and>
          left b = fst (snd (read_device e m1)) \<and> right b = snd (snd (read_device e m1)) \<and>
          (\<not> open_ok e \<longrightarrow> left b = None \<and> right b = None) \<and>
          (log_write_ok e \<longrightarrow>
             log_file m' =
               Some ((case log_file m of None \<Rightarrow> csv_header | Some content \<Rightarrow> content) @
                     csv_row b) \<and>
             (left b = None \<and> right b = None \<longrightarrow> csv_row b = now e @ '',,'' @ newline) \<and>
             (if icon m then m' = snd (update_tray m2) else m' = m2) \<and>
             (icon m \<and> left b = None \<and> right b = None \<longrightarrow>
                ui_events m' =
                  ui_events m @ (if gui_available m then [UpdateIcon Gray Gray] else []) @
                  [UpdateTitle ''ZMK Battery Monitor - Left: Unknown, Right: Unknown''])) \<and>
          (\<not> log_write_ok e \<longrightarrow>
             m' = m2 \<and> log_file m' = log_file m \<and> ui_events m' = ui_events m)))"
proof -
  obtain res m1 where fk: "find_keyboard e m = (res, m1)"
    by (cases "find_keyboard e m") auto
  note fr = find_keyboard_frame [OF fk]
  have a: "monitoring_cycle e m = m" if nf: "res \<noteq> Inr True"
  proof -
    have "m1 = m" using fr nf by simp
    then show ?thesis
      using fk nf by (cases res) (auto simp: monitoring_cycle_snd cycle_body_def)
  qed
  let ?m2 = "snd (read_battery_levels e m1)"
  let ?m' = "monitoring_cycle e m"
  let ?b = "battery_levels ?m'"
  have b: "timestamp ?b = Some (now e) \<and>
          left ?b = fst (snd (read_device e m1)) \<and> right ?b = snd (snd (read_device e m1)) \<and>
          (\<not> open_ok e \<longrightarrow> left ?b = None \<and> right ?b = None) \<and>
          (log_write_ok e \<longrightarrow>
             log_file ?m' =
               Some ((case log_file m of None \<Rightarrow> csv_header | Some content \<Rightarrow> content) @
                     csv_row ?b) \<and>
             (left ?b = None \<and> right ?b = None \<longrightarrow> csv_row ?b = now e @ '',,'' @ newline) \<and>
             (if icon m then ?m' = snd (update_tray ?m2) else ?m' = ?m2) \<and>
             (icon m \<and> left ?b = None \<and> right ?b = None \<longrightarrow>
                ui_events ?m' =
                  ui_events m @ (if gui_available m then [UpdateIcon Gray Gray] else []) @
                  [UpdateTitle ''ZMK Battery Monitor - Left: Unknown, Right: Unknown''])) \<and>
          (\<not> log_write_ok e \<longrightarrow>
             ?m' = ?m2 \<and> log_file ?m' = log_file m \<and> ui_events ?m' = ui_events m)"
    if r: "res = Inr True"
  proof -
    have fk': "find_keyboard e m = (Inr True, m1)" using fk r by simp
    note cyc0 = monitoring_cycle_found [OF fk', unfolded Let_def]
    have ic: "icon ?m2 = icon m" "gui_available ?m2 = gui_available m"
      "ui_events ?m2 = ui_events m"
      using fr by (simp_all add: read_battery_levels_ui)
    have bl: "battery_levels ?m' = battery_levels ?m2"
      using cyc0 by (auto simp: update_tray_frame split: sum.splits)
    have ts: "timestamp ?b = Some (now e)"
      using bl by (simp add: read_battery_levels_timestamp)
    have lr: "left ?b = fst (snd (read_device e m1))" "right ?b = snd (snd (read_device e m1))"
      using bl by (simp_all add: read_battery_levels_values)
    have closed: "left ?b = None \<and> right ?b = None" if no: "\<not> open_ok e"
    proof -
      have "\<not> device_opens e m1"
        using no by (auto simp: device_opens_def split: sum.splits)
      then have "read_device e m1 = (m1, None, None)" by (rule read_device_closed)
      then show ?thesis using lr by simp
    qed
    have logged: "log_file ?m' =
               Some ((case log_file m of None \<Rightarrow> csv_header | Some content \<Rightarrow> content) @
                     csv_row ?b) \<and>
             (left ?b = None \<and> right ?b = None \<longrightarrow> csv_row ?b = now e @ '',,'' @ newline) \<and>
             (if icon m then ?m' = snd (update_tray ?m2) else ?m' = ?m2) \<and>
             (icon m \<and> left ?b = None \<and> right ?b = None \<longrightarrow>
                ui_events ?m' =
                  ui_events m @ (if gui_available m then [UpdateIcon Gray Gray] else []) @
                  [UpdateTitle ''ZMK Battery Monitor - Left: Unknown, Right: Unknown''])"
      if ok: "log_write_ok e"
    proof -
      have res2: "fst (read_battery_levels e m1) = Inr (battery_levels ?m2)"
        using read_battery_levels_logged(3) [OF ok] .
      have cyc: "?m' = (if icon m then snd (update_tray ?m2) else ?m2)"
        using cyc0 res2 ic by simp
      have lf: "log_file ?m' = log_file ?m2"
        using cyc by (simp add: update_tray_frame)
      have row: "log_file ?m' =
          Some ((case log_file m of None \<Rightarrow> csv_header | Some content \<Rightarrow> content) @ csv_row ?b)"
        using read_battery_levels_logged(1) [OF ok, of m1] bl lf fr by simp
      have empty: "csv_row ?b = now e @ '',,'' @ newline"
        if "left ?b = None \<and> right ?b = None"
        using that ts by (simp add: csv_row_def csv_field_def)
      have ui: "ui_events ?m' =
                  ui_events m @ (if gui_available m then [UpdateIcon Gray Gray] else []) @
                  [UpdateTitle ''ZMK Battery Monitor - Left: Unknown, Right: Unknown'']"
        if u: "icon m \<and> left ?b = None \<and> right ?b = None"
      proof -
        have "left (battery_levels ?m2) = None" "right (battery_levels ?m2) = None"
          using u bl by simp_all
        then show ?thesis
          using update_tray_unknown [of ?m2] cyc u ic by simp
      qed
      show ?thesis
        using row empty cyc ui by auto
    qed
    have unlogged: "?m' = ?m2 \<and> log_file ?m' = log_file m \<and> ui_events ?m' = ui_events m"
      if no: "\<not> log_write_ok e"
    proof -
      have "fst (read_battery_levels e m1) = Inl IOError"
        using read_battery_levels_unlogged(1) [OF no] .
      then have "?m' = ?m2" using cyc0 by simp
      then show ?thesis
        using read_battery_levels_unlogged(2) [OF no, of m1] fr ic by simp
    qed
    show ?thesis
      using ts lr closed logged unlogged by blast
  qed
  have c: "fst (try_cycle e m) = None" by (rule try_cycle_caught)
  have fsts: "fst (find_keyboard e m) = res" "snd (find_keyboard e m) = m1"
    using fk by simp_all
  show ?thesis
    unfolding Let_def fsts using a b c by blast
qed

theorem cycle_on_failure_witness:
  "fst (find_keyboard (world [] True answers_none) fresh_monitor) = Inr False \<and>
   monitoring_cycle (world [] True answers_none) fresh_monitor = fresh_monitor \<and>
   fst (find_keyboard (world [corne] False answers_none) tray_monitor) = Inr True \<and>
   log_write_ok (world [corne] False answers_none) \<and>
   \<not> open_ok (world [corne] False answers_none) \<and> icon tray_monitor \<and>
   battery_levels (monitoring_cycle (world [corne] False answers_none) tray_monitor) =
     \<lparr>left = None, right = None, timestamp = Some ''2025-01-01 12:00:00''\<rparr> \<and>
   log_file (monitoring_cycle (world [corne] False answers_none) tray_monitor) =
     Some (csv_header @ ''2025-01-01 12:00:00,,'' @ newline) \<and>
   ui_events (monitoring_cycle (world [corne] False answers_none) tray_monitor) =
     [UpdateIcon Gray Gray, UpdateTitle ''ZMK Battery Monitor - Left: Unknown, Right: Unknown''] \<and>
   fst (find_keyboard (world [corne] True answers_none) tray_monitor) = Inr True \<and>
   open_ok (world [corne] True answers_none) \<and>
   snd (read_device (world [corne] True answers_none) tray_monitor) = (None, None) \<and>
   battery_levels (monitoring_cycle (world [corne] True answers_none) tray_monitor) =
     \<lparr>left = None, right = None, timestamp = Some ''2025-01-01 12:00:00''\<rparr> \<and>
   ui_events (monitoring_cycle (world [corne] True answers_none) tray_monitor) =
     [UpdateIcon Gray Gray, UpdateTitle ''ZMK Battery Monitor - Left: Unknown, Right: Unknown'']"
proof -
  let ?q = "world [] True answers_none"
  let ?e = "world [corne] False answers_none"
  let ?r = "world [corne] True answers_none"
  let ?t = "tray_monitor"
  have nf: "fst (find_keyboard ?q fresh_monitor) = Inr False"
    by (simp add: ex_defs find_keyboard_def configured_ids_def)
  have f: "fst (find_keyboard ?e ?t) = Inr True" "snd (find_keyboard ?e ?t) = ?t"
    "fst (find_keyboard ?r ?t) = Inr True" "snd (find_keyboard ?r ?t) = ?t"
    by (simp_all add: ex_defs tray_monitor_def find_keyboard_def configured_ids_def
        is_configured_device_def py_eq_int_def)
  have v: "log_write_ok ?e" "\<not> open_ok ?e" "log_write_ok ?r" "open_ok ?r"
    "icon ?t" "gui_available ?t" "log_file ?t = None" "ui_events ?t = []"
    "now ?e = ''2025-01-01 12:00:00''" "now ?r = ''2025-01-01 12:00:00''"
    by (simp_all add: ex_defs tray_monitor_def)
  have rd: "snd (read_device ?r ?t) = (None, None)"
    by (simp add: ex_defs tray_monitor_def answers_none_def read_device_def report_ids_def
        read_stored_def Let_def)
  note t1 = cycle_on_failure [of ?q fresh_monitor, THEN conjunct2, THEN conjunct1, rule_format]
  note t2 = cycle_on_failure [of ?e ?t, THEN conjunct2, THEN conjunct2, rule_format,
      OF f(1), unfolded Let_def f(2)]
  note t3 = cycle_on_failure [of ?r ?t, THEN conjunct2, THEN conjunct2, rule_format,
      OF f(3), unfolded Let_def f(4)]
  let ?b2 = "battery_levels (monitoring_cycle ?e ?t)"
  let ?b3 = "battery_levels (monitoring_cycle ?r ?t)"
  have a: "monitoring_cycle ?q fresh_monitor = fresh_monitor"
    using t1 nf by simp
  have b2: "timestamp ?b2 = Some (now ?e)" "left ?b2 = None" "right ?b2 = None"
    using t2 [THEN conjunct1]
      t2 [THEN conjunct2, THEN conjunct2, THEN conjunct2, THEN conjunct1, rule_format, OF v(2)]
    by simp_all
  note w2 = t2 [THEN conjunct2, THEN conjunct2, THEN conjunct2, THEN conjunct2, THEN conjunct1,
      rule_format, OF v(1)]
  from b2 have r2: "?b2 = \<lparr>left = None, right = None, timestamp = Some ''2025-01-01 12:00:00''\<rparr>"
    using v(9) by (cases ?b2) simp
  have l2: "log_file (monitoring_cycle ?e ?t) =
      Some (csv_header @ ''2025-01-01 12:00:00,,'' @ newline)"
    using w2 [THEN conjunct1] w2 [THEN conjunct2, THEN conjunct1, rule_format, OF conjI [OF b2(2) b2(3)]]
      v(7) v(9) by simp
  have u2: "ui_events (monitoring_cycle ?e ?t) =
      [UpdateIcon Gray Gray, UpdateTitle ''ZMK Battery Monitor - Left: Unknown, Right: Unknown'']"
    using w2 [THEN conjunct2, THEN conjunct2, THEN conjunct2, rule_format,
        OF conjI [OF v(5) conjI [OF b2(2) b2(3)]]] v(6) v(8) by simp
  have b3: "timestamp ?b3 = Some (now ?r)" "left ?b3 = None" "right ?b3 = None"
    using t3 [THEN conjunct1] t3 [THEN conjunct2, THEN conjunct1]
      t3 [THEN conjunct2, THEN conjunct2, THEN conjunct1] rd
    by simp_all
  note w3 = t3 [THEN conjunct2, THEN conjunct2, THEN conjunct2, THEN conjunct2, THEN conjunct1,
      rule_format, OF v(3)]
  from b3 have r3: "?b3 = \<lparr>left = None, right = None, timestamp = Some ''2025-01-01 12:00:00''\<rparr>"
    using v(10) by (cases ?b3) simp
  have u3: "ui_events (monitoring_cycle ?r ?t) =
      [UpdateIcon Gray Gray, UpdateTitle ''ZMK Battery Monitor - Left: Unknown, Right: Unknown'']"
    using w3 [THEN conjunct2, THEN conjunct2, THEN conjunct2, rule_format,
        OF conjI [OF v(5) conjI [OF b3(2) b3(3)]]] v(6) v(8) by simp
  show ?thesis
    using nf a f(1) v(1) v(2) v(5) r2 l2 u2 f(3) v(4) rd r3 u3 by simp
qed

text \<open>
  C4 as stated fails: when the configured keyboard is enumerated but cannot be opened,
  the cycle replaces the retained reading, appends a row with two empty fields and
  updates the tray.
\<close>

theorem cycle_on_failure_counterexample:
  "fst (find_keyboard (world [corne] False answers_none) tray_monitor) = Inr True \<and>
   \<not> open_ok (world [corne] False answers_none) \<and>
   battery_levels tray_monitor = \<lparr>left = None, right = None, timestamp = None\<rparr> \<and>
   battery_levels (monitoring_cycle (world [corne] False answers_none) tray_monitor) =
     \<lparr>left = None, right = None, timestamp = Some ''2025-01-01 12:00:00''\<rparr> \<and>
   log_file tray_monitor = None \<and>
   log_file (monitoring_cycle (world [corne] False answers_none) tray_monitor) =
     Some (''timestamp,left_battery,right_battery'' @ newline @
           ''2025-01-01 12:00:00,,'' @ newline) \<and>
   ui_events tray_monitor = [] \<and>
   ui_events (monitoring_cycle (world [corne] False answers_none) tray_monitor) =
     [UpdateIcon Gray Gray, UpdateTitle ''ZMK Battery Monitor - Left: Unknown, Right: Unknown'']"
  by (simp add: ex_defs run_defs cycle_defs answers_none_def)

section \<open>Stopping the worker\<close>








section \<open>Loading the configuration\<close>

text \<open>
  C7 on a configuration file that holds the JSON array of the nine default key names:
  every membership test of the merge loop succeeds, nothing is assigned, and
  \<^verbatim>\<open>load_config\<close> returns the array itself. No field is defined in it: subscripting
  it with a key raises \<^verbatim>\<open>TypeError\<close>. \<^verbatim>\<open>find_keyboard\<close> raises it in the first cycle,
  where the handler of the loop catches it; the sleep phase raises it outside the
  handler, which ends the worker.
\<close>

theorem load_config_list_of_keys:
  "load_config (Parsed key_list) = key_list \<and>
   subscript (load_config (Parsed key_list)) ''vendor_id'' = Inl TypeError \<and>
   configured_ids (load_config (Parsed key_list)) = Inl TypeError \<and>
   sleep_rounds (load_config (Parsed key_list)) = Inl TypeError"
  by (simp add: key_list_def DEFAULT_CONFIG_def configured_ids_def sleep_rounds_def)

text \<open>For a file that holds a JSON object the claim holds: the loaded configuration is
  the object followed by the defaults it lacks, every default key is defined, the
  object's own entries survive, and loading what was loaded changes nothing.\<close>

lemma merge_defaults_dict:
  "distinct (map fst ds) \<Longrightarrow>
     merge_defaults (JDict kvs) ds =
       Inr (JDict (kvs @ filter (\<lambda>(k, v). k \<notin> set (map fst kvs)) ds))"
proof (induction ds arbitrary: kvs)
  case Nil
  then show ?case by simp
next
  case (Cons d ds)
  obtain k v where d: "d = (k, v)" by (cases d)
  have dist: "distinct (map fst ds)" and fresh: "k \<notin> set (map fst ds)"
    using Cons.prems d by auto
  show ?case
  proof (cases "k \<in> set (map fst kvs)")
    case True
    then show ?thesis using Cons.IH [OF dist, of kvs] d by simp
  next
    case False
    have upd: "AList.update k v kvs = kvs @ [(k, v)]"
      using False by (induction kvs) auto
    have "filter (\<lambda>(k', v'). k' \<notin> set (map fst (kvs @ [(k, v)]))) ds =
          filter (\<lambda>(k', v'). k' \<notin> set (map fst kvs)) ds"
      using fresh by (intro filter_cong) (auto simp: image_iff)
    then show ?thesis
      using Cons.IH [OF dist, of "kvs @ [(k, v)]"] d False upd by simp
  qed
qed

lemma distinct_default_keys: "distinct (map fst DEFAULT_CONFIG)"
  by (simp add: DEFAULT_CONFIG_def)

lemma load_config_object:
  "load_config (Parsed (JDict kvs)) =
     JDict (kvs @ filter (\<lambda>(k, v). k \<notin> set (map fst kvs)) DEFAULT_CONFIG)"
  by (simp add: merge_defaults_dict [OF distinct_default_keys])

lemma load_config_object_defined:
  assumes "(k, d) \<in> set DEFAULT_CONFIG"
  shows "\<exists>v. subscript (load_config (Parsed (JDict kvs))) k = Inr v"
proof -
  have "k \<in> fst ` set (kvs @ filter (\<lambda>(k, v). k \<notin> set (map fst kvs)) DEFAULT_CONFIG)"
    using assms by (cases "k \<in> fst ` set kvs") force+
  then obtain v where
    "map_of (kvs @ filter (\<lambda>(k, v). k \<notin> set (map fst kvs)) DEFAULT_CONFIG) k = Some v"
    by (meson domD domIff map_of_eq_None_iff)
  then show ?thesis by (simp add: load_config_object del: load_config.simps)
qed

lemma load_config_object_keeps:
  "map_of kvs k = Some v \<Longrightarrow> subscript (load_config (Parsed (JDict kvs))) k = Inr v"
  by (simp add: load_config_object del: load_config.simps)

lemma load_config_object_again:
  "load_config (Parsed (load_config (Parsed (JDict kvs)))) = load_config (Parsed (JDict kvs))"
proof -
  let ?c = "kvs @ filter (\<lambda>(k, v). k \<notin> set (map fst kvs)) DEFAULT_CONFIG"
  have "filter (\<lambda>(k, v). k \<notin> set (map fst ?c)) DEFAULT_CONFIG = []"
    by (auto simp: filter_empty_conv image_iff)
  then show ?thesis
    by (simp add: load_config_object del: filter_append map_append load_config.simps)
qed

end
